theory Spec2Isabelle
  imports Complex_Main
begin

section \<open>DigitalGel: data model\<close>

text \<open>
  The embedding follows \<^verbatim>\<open>src/DigitalGel.py\<close>. Python integers are \<^typ>\<open>int\<close>.
  In the layout (rows, intensities, drawing) Python floats are read as exact reals
  (\<^typ>\<open>real\<close>, \<open>math.log10\<close> as \<^term>\<open>log 10\<close>), without IEEE rounding, infinities or
  NaN: a row of the layout model can differ by one from the row the doubles give, and the
  theorems about the layout do not depend on which row a band gets. Where rounding decides,
  in the comparison of the distances of two lengths, \<open>Lane.__distance\<close> is modelled on
  doubles in a section of its own. Exceptions are values of the type \<open>error\<close>; a function
  that can raise returns \<open>error + 'a\<close>.
\<close>

datatype error =
    ValueError_empty_sequence  \<comment> \<open>\<open>max()\<close> / \<open>min()\<close> of an empty sequence\<close>
  | ValueError_math_domain     \<comment> \<open>\<open>math.log10\<close> of a number that is not positive\<close>
  | ZeroDivisionError          \<comment> \<open>float division by zero\<close>

record band =
  numBases :: int
  annot :: string
  link :: "string option"
  reads :: real

record drawParams =
  gelHeight :: int
  margin :: int
  laneWidth :: int
  gapWidth :: int
  fontsize :: int
  dilationFactor :: real

text \<open>\<open>drawParams()\<close> with every argument left at its default.\<close>

definition drawParams_default :: drawParams where
  "drawParams_default =
     \<lparr>gelHeight = 400, margin = 60, laneWidth = 30, gapWidth = 20, fontsize = 12,
      dilationFactor = 5\<rparr>"

text \<open>\<open>if dParam == None: dParam = drawParams()\<close>, at the head of every method that takes
  \<open>dParam\<close>.\<close>

definition or_default :: "drawParams option \<Rightarrow> drawParams" where
  "or_default dParam = (case dParam of None \<Rightarrow> drawParams_default | Some p \<Rightarrow> p)"

text \<open>
  The fields \<open>gelHeight\<close> and \<open>dilationFactor\<close> of a Lane carry the prefix \<open>lane_\<close>, since
  the record \<open>drawParams\<close> has fields of the same names.
\<close>

record lane =
  name :: string
  bands :: "band list"
  isLadder :: bool
  lane_gelHeight :: int
  lane_dilationFactor :: real

text \<open>\<open>Lane.__init__\<close>. \<open>list(bands)\<close> gives the lane a list of its own; which list
  objects are shared is modelled in the section on the store below.\<close>

definition Lane_init :: "string \<Rightarrow> band list \<Rightarrow> drawParams option \<Rightarrow> bool \<Rightarrow> lane" where
  "Lane_init nm bs dParam ladder =
     (let dP = or_default dParam
      in \<lparr>name = nm, bands = bs, isLadder = ladder,
          lane_gelHeight = gelHeight dP, lane_dilationFactor = dilationFactor dP\<rparr>)"

section \<open>Migration model of the layout\<close>

text \<open>\<open>math.log10\<close> raises \<open>ValueError\<close> on an argument that is not positive.\<close>

definition log10 :: "int \<Rightarrow> error + real" where
  "log10 n = (if n \<le> 0 then Inl ValueError_math_domain else Inr (log 10 (real_of_int n)))"

text \<open>\<open>Lane.__distance\<close>.\<close>

definition distance :: "lane \<Rightarrow> int \<Rightarrow> error + real" where
  "distance L n =
     (case log10 n of
        Inl e \<Rightarrow> Inl e
      | Inr lg \<Rightarrow> Inr (lane_dilationFactor L * (4 - lg)))"

text \<open>Python's \<open>int()\<close> of a float truncates towards zero.\<close>

definition py_int :: "real \<Rightarrow> int" where
  "py_int x = (if 0 \<le> x then \<lfloor>x\<rfloor> else \<lceil>x\<rceil>)"

text \<open>\<open>Lane.__lengthtoIndex\<close>, in the source's order of evaluation: the distance of \<open>high\<close>,
  of \<open>low\<close>, of the band, and then the division.\<close>

definition lengthtoIndex :: "lane \<Rightarrow> band \<Rightarrow> int \<Rightarrow> int \<Rightarrow> error + int" where
  "lengthtoIndex L b low high =
     (case distance L high of
        Inl e \<Rightarrow> Inl e
      | Inr minimum \<Rightarrow>
     (case distance L low of
        Inl e \<Rightarrow> Inl e
      | Inr dlow \<Rightarrow>
     (let expFactor = dlow - minimum in
     (case distance L (numBases b) of
        Inl e \<Rightarrow> Inl e
      | Inr d \<Rightarrow>
          if expFactor = 0 then Inl ZeroDivisionError
          else Inr (py_int ((d - minimum) / expFactor * real_of_int (lane_gelHeight L - 1)))))))"

section \<open>Lane.__distance on doubles\<close>

text \<open>
  Whether two lengths get different distances is decided by rounding, so for that question
  \<open>Lane.__distance\<close> is modelled on doubles. A double is a finite real (\<open>Finite x\<close> is the
  double of value \<open>x\<close>; the two zeros are one value), an infinity or NaN.
  What CPython itself does is written out: \<open>math.log10\<close> of an \<open>int\<close> rejects an argument
  that is not positive, converts the argument to the nearest double (ties to even, as
  \<open>PyLong_AsDouble\<close> does) and calls the \<open>log10\<close> of the C library on it. What the platform
  does is a parameter: the \<open>log10\<close> of the C library, the float subtraction and the float
  multiplication, and the result of \<open>math.log10\<close> for an \<open>int\<close> beyond the range of the
  doubles (which CPython computes from the mantissa and the exponent).
\<close>

datatype double = Finite real | PInf | NInf | NaN

text \<open>Python's \<open><\<close> and \<open><=\<close> on floats: false whenever an operand is NaN.\<close>

fun double_less :: "double \<Rightarrow> double \<Rightarrow> bool" where
  "double_less (Finite a) (Finite b) = (a < b)"
| "double_less (Finite a) PInf = True"
| "double_less NInf (Finite b) = True"
| "double_less NInf PInf = True"
| "double_less x y = False"

definition double_le :: "double \<Rightarrow> double \<Rightarrow> bool" where
  "double_le x y \<longleftrightarrow> double_less x y \<or> (x = y \<and> x \<noteq> NaN)"

text \<open>\<open>int.bit_length\<close> of an integer that is not negative.\<close>

function bit_length :: "int \<Rightarrow> nat" where
  "bit_length n = (if n \<le> 0 then 0 else Suc (bit_length (n div 2)))"
  by pat_completeness auto
termination
  by (relation "measure nat") auto

declare bit_length.simps [simp del]

text \<open>
  The value of the double nearest to a positive integer: the integer itself when it has at
  most 53 bits, and otherwise its leading 53 bits, rounded to nearest with ties to even, times
  the power of two of the bits dropped.
\<close>

definition nearest_double :: "int \<Rightarrow> int" where
  "nearest_double n =
     (let L = bit_length n in
      if L \<le> 53 then n
      else (let s = L - 53; q = n div 2 ^ s; r = n mod 2 ^ s; h = 2 ^ (s - 1)
            in (if h < r \<or> (r = h \<and> odd q) then q + 1 else q) * 2 ^ s))"

text \<open>\<open>PyLong_AsDouble\<close>: \<open>None\<close> is the \<open>OverflowError\<close> of an integer that rounds to
  \<open>2 ^ 1024\<close> or more.\<close>

definition PyLong_AsDouble :: "int \<Rightarrow> double option" where
  "PyLong_AsDouble n =
     (let m = nearest_double \<bar>n\<bar> in
      if 2 ^ 1024 \<le> m then None
      else Some (Finite (real_of_int (if n < 0 then - m else m))))"

record platform =
  libm_log10 :: "double \<Rightarrow> double"
  float_sub :: "double \<Rightarrow> double \<Rightarrow> double"
  float_mul :: "double \<Rightarrow> double \<Rightarrow> double"
  log10_huge :: "int \<Rightarrow> double"

text \<open>\<open>math.log10\<close> of an \<open>int\<close>; the \<open>OverflowError\<close> of the conversion is caught inside.\<close>

definition math_log10 :: "platform \<Rightarrow> int \<Rightarrow> error + double" where
  "math_log10 P n =
     (if n \<le> 0 then Inl ValueError_math_domain
      else (case PyLong_AsDouble n of
              None \<Rightarrow> Inr (log10_huge P n)
            | Some x \<Rightarrow> Inr (libm_log10 P x)))"

text \<open>
  \<open>Lane.__distance\<close>: \<open>float(self.dilationFactor) * (4 - math.log10(numBases))\<close>. The field
  \<open>lane_dilationFactor\<close> is the value of the double that \<open>float(self.dilationFactor)\<close> gives.
\<close>

definition distance_double :: "platform \<Rightarrow> lane \<Rightarrow> int \<Rightarrow> error + double" where
  "distance_double P L n =
     (case math_log10 P n of
        Inl e \<Rightarrow> Inl e
      | Inr lg \<Rightarrow> Inr (float_mul P (Finite (lane_dilationFactor L)) (float_sub P (Finite 4) lg)))"

text \<open>The rounding decision of \<open>nearest_double\<close> for \<open>s\<close> dropped bits.\<close>

definition round_up :: "int \<Rightarrow> nat \<Rightarrow> bool" where
  "round_up n s \<longleftrightarrow> 2 ^ (s - 1) < n mod 2 ^ s \<or> (n mod 2 ^ s = 2 ^ (s - 1) \<and> odd (n div 2 ^ s))"

text \<open>
  A platform without rounding: logarithm, difference and product are the exact ones, with the
  IEEE 754 results for the infinities. With it, \<open>distance_double\<close> is the function
  \<open>distance\<close> of the layout model (lemma \<open>distance_double_exact\<close>).
\<close>

fun exact_log10 :: "double \<Rightarrow> double" where
  "exact_log10 (Finite x) = (if 0 < x then Finite (log 10 x) else if x = 0 then NInf else NaN)"
| "exact_log10 PInf = PInf"
| "exact_log10 NInf = NaN"
| "exact_log10 NaN = NaN"

fun exact_sub :: "double \<Rightarrow> double \<Rightarrow> double" where
  "exact_sub (Finite a) (Finite b) = Finite (a - b)"
| "exact_sub (Finite a) PInf = NInf"
| "exact_sub (Finite a) NInf = PInf"
| "exact_sub PInf (Finite b) = PInf"
| "exact_sub PInf NInf = PInf"
| "exact_sub NInf (Finite b) = NInf"
| "exact_sub NInf PInf = NInf"
| "exact_sub x y = NaN"

fun exact_mul :: "double \<Rightarrow> double \<Rightarrow> double" where
  "exact_mul (Finite a) (Finite b) = Finite (a * b)"
| "exact_mul (Finite a) PInf = (if 0 < a then PInf else if a < 0 then NInf else NaN)"
| "exact_mul (Finite a) NInf = (if 0 < a then NInf else if a < 0 then PInf else NaN)"
| "exact_mul PInf (Finite b) = (if 0 < b then PInf else if b < 0 then NInf else NaN)"
| "exact_mul NInf (Finite b) = (if 0 < b then NInf else if b < 0 then PInf else NaN)"
| "exact_mul PInf PInf = PInf"
| "exact_mul NInf NInf = PInf"
| "exact_mul PInf NInf = NInf"
| "exact_mul NInf PInf = NInf"
| "exact_mul x y = NaN"

definition exact_platform :: platform where
  "exact_platform =
     \<lparr>libm_log10 = exact_log10, float_sub = exact_sub, float_mul = exact_mul,
      log10_huge = (\<lambda>n. Finite (log 10 (real_of_int n)))\<rparr>"

section \<open>The canvas\<close>

text \<open>
  The svgwrite drawing is the external canvas. The model keeps what the program puts into it:
  the style sheets and the sequence of top-level elements, in the order of the \<open>add\<close> calls.
  An element records the arguments that vary; the constant ones (\<open>stroke='none'\<close>, the grey
  text fill, \<open>target='_top'\<close>) are left out. The serialised document is a function of this
  content, and the model takes the content itself for it.
\<close>

datatype element =
    Rect "int \<times> int" "int \<times> int" string "real option"
      \<comment> \<open>\<open>insert\<close>, \<open>size\<close>, \<open>fill\<close>, \<open>opacity\<close>\<close>
  | Text string "int \<times> int" int
      \<comment> \<open>the text, \<open>insert\<close>, the font size in px\<close>
  | Group string "element list"
      \<comment> \<open>\<open>class\<close>, the children\<close>
  | Hyperlink string "element list"
      \<comment> \<open>\<open>href\<close>, the children\<close>

record drawing =
  stylesheets :: "(string \<times> string) list"
  elements :: "element list"

definition add :: "drawing \<Rightarrow> element \<Rightarrow> drawing" where
  "add d e = d\<lparr>elements := elements d @ [e]\<rparr>"

section \<open>Band.draw\<close>

text \<open>
  With a link that is neither \<open>None\<close> nor the empty string, the hyperlink is added to the
  drawing by \<open>dwg.add(svgwrite.container.Hyperlink(...))\<close>, filled, and added once more by
  \<open>dwg.add(link)\<close>: the drawing then holds the same hyperlink object twice.
\<close>

definition Band_draw ::
  "band \<Rightarrow> drawing \<Rightarrow> int \<Rightarrow> int \<Rightarrow> real \<Rightarrow> drawParams option \<Rightarrow> bool \<Rightarrow> drawing" where
  "Band_draw b dwg xCoord yCoord intensity dParam ladder =
     (let dP = or_default dParam;
          bandLine = Rect (xCoord, yCoord) (laneWidth dP, 1) ''white'' (Some intensity);
          x = (if ladder then xCoord - py_int (real_of_int (margin dP) * 2 / 3) else 0);
          y = (if ladder then yCoord + 3 else gelHeight dP + 2 * margin dP - 5);
          g = Group (if \<not> ladder then ''label'' else ''text'')
                [Text (annot b) (x, y) (fontsize dP)]
      in case link b of
           None \<Rightarrow> add (add dwg bandLine) g
         | Some href \<Rightarrow>
             if href = [] then add (add dwg bandLine) g
             else (let lnk = Hyperlink href [bandLine, g] in add (add dwg lnk) lnk))"

section \<open>Lane.draw\<close>

text \<open>Python's \<open>max\<close> and \<open>min\<close> of a sequence: \<open>ValueError\<close> when it is empty.\<close>

definition py_max :: "'a::linorder list \<Rightarrow> error + 'a" where
  "py_max xs = (case xs of [] \<Rightarrow> Inl ValueError_empty_sequence | x # ys \<Rightarrow> Inr (fold max ys x))"

definition py_min :: "'a::linorder list \<Rightarrow> error + 'a" where
  "py_min xs = (case xs of [] \<Rightarrow> Inl ValueError_empty_sequence | x # ys \<Rightarrow> Inr (fold min ys x))"

definition minBandIntensity :: real where
  "minBandIntensity = 0.2"

text \<open>Lines 114 to 119 of \<open>Lane.draw\<close>: the intensity of one band.\<close>

definition intensity_of :: "lane \<Rightarrow> real \<Rightarrow> band \<Rightarrow> error + real" where
  "intensity_of L maxNum b =
     (if isLadder L then Inr (reads b)
      else if maxNum = 0 then Inl ZeroDivisionError
      else (let val = 1 - (maxNum - reads b) / maxNum in Inr (max val minBandIntensity)))"

text \<open>
  The loop of \<open>Lane.draw\<close> over the bands. \<open>SeenY\<close> is the set of keys of the dictionary of
  the source. A raised exception ends the loop; the drawing keeps what was added before.
\<close>

fun draw_bands ::
  "lane \<Rightarrow> drawParams \<Rightarrow> int \<Rightarrow> int \<Rightarrow> int \<Rightarrow> real \<Rightarrow> band list \<Rightarrow> int set \<Rightarrow> drawing
     \<Rightarrow> drawing \<times> error option" where
  "draw_bands L dP xCoord minBandSize maxBandSize maxNum [] SeenY dwg = (dwg, None)"
| "draw_bands L dP xCoord minBandSize maxBandSize maxNum (b # bs) SeenY dwg =
     (case lengthtoIndex L b minBandSize maxBandSize of
        Inl e \<Rightarrow> (dwg, Some e)
      | Inr i \<Rightarrow>
     (let yCoord = i + margin dP in
     (case intensity_of L maxNum b of
        Inl e \<Rightarrow> (dwg, Some e)
      | Inr intensity \<Rightarrow>
          if yCoord \<notin> SeenY
          then draw_bands L dP xCoord minBandSize maxBandSize maxNum bs (insert yCoord SeenY)
                 (Band_draw b dwg xCoord yCoord intensity (Some dP) (isLadder L))
          else draw_bands L dP xCoord minBandSize maxBandSize maxNum bs SeenY dwg)))"

definition Lane_draw ::
  "lane \<Rightarrow> drawing \<Rightarrow> int \<Rightarrow> int \<Rightarrow> int \<Rightarrow> drawParams option \<Rightarrow> drawing \<times> error option" where
  "Lane_draw L dwg xCoord minBandSize maxBandSize dParam =
     (let dP = or_default dParam;
          dwg1 = add dwg (Text (name L) (xCoord, 10) (fontsize dP))
      in case py_max (map reads (bands L)) of
           Inl e \<Rightarrow> (dwg1, Some e)
         | Inr maxNum \<Rightarrow>
             draw_bands L dP xCoord minBandSize maxBandSize maxNum (bands L) {} dwg1)"

section \<open>Gel: construction of the ladder\<close>

text \<open>\<open>str(length).rjust(3, ' ')\<close>: the decimal numeral of an integer, padded on the left.\<close>

fun str_nat :: "nat \<Rightarrow> string" where
  "str_nat n =
     (if n < 10 then [''0123456789'' ! n]
      else str_nat (n div 10) @ [''0123456789'' ! (n mod 10)])"

declare str_nat.simps [simp del]

definition str_int :: "int \<Rightarrow> string" where
  "str_int i = (if i < 0 then CHR ''-'' # str_nat (nat (- i)) else str_nat (nat i))"

definition rjust :: "nat \<Rightarrow> char \<Rightarrow> string \<Rightarrow> string" where
  "rjust w c s = replicate (w - length s) c @ s"

text \<open>\<open>Band.__init__\<close>, arguments in the order of the source.\<close>

definition Band_init :: "int \<Rightarrow> string \<Rightarrow> real \<Rightarrow> string option \<Rightarrow> band" where
  "Band_init n a r l = \<lparr>numBases = n, annot = a, link = l, reads = r\<rparr>"

text \<open>The default values of the arguments \<open>ladder\<close> and \<open>boldLadder\<close> of \<open>Gel.__init__\<close>.\<close>

definition ladder_default :: "int list" where
  "ladder_default =
     [25, 50, 75, 100, 125, 150, 200, 250, 300, 400, 500, 600, 700, 800, 900, 1000,
      1250, 1500, 1750, 2000]"

definition boldLadder_default :: "int list" where
  "boldLadder_default = [50, 100, 200, 500, 1000, 1500]"

text \<open>
  Lines 163 and 164: the maximum over the lanes of the maximum over the bands of a lane, and
  the same with minima. The generator evaluates the inner \<open>max\<close> lane by lane, so the first
  lane without bands raises; with no lane at all the outer \<open>max\<close> raises.
\<close>

fun each_lane :: "(lane \<Rightarrow> error + int) \<Rightarrow> lane list \<Rightarrow> error + int list" where
  "each_lane f [] = Inr []"
| "each_lane f (l # ls) =
     (case f l of
        Inl e \<Rightarrow> Inl e
      | Inr v \<Rightarrow> (case each_lane f ls of Inl e \<Rightarrow> Inl e | Inr vs \<Rightarrow> Inr (v # vs)))"

definition max_of_lanes :: "lane list \<Rightarrow> error + int" where
  "max_of_lanes ls =
     (case each_lane (\<lambda>l. py_max (map numBases (bands l))) ls of
        Inl e \<Rightarrow> Inl e
      | Inr ms \<Rightarrow> py_max ms)"

definition min_of_lanes :: "lane list \<Rightarrow> error + int" where
  "min_of_lanes ls =
     (case each_lane (\<lambda>l. py_min (map numBases (bands l))) ls of
        Inl e \<Rightarrow> Inl e
      | Inr ms \<Rightarrow> py_min ms)"

text \<open>
  The body of the loop of \<open>__makeLadder\<close> for one pair \<open>(ind, length)\<close> of the enumeration.
  The state is the list \<open>bands\<close> with \<open>newMin\<close> and \<open>newMax\<close>. Inside the loop the list
  \<open>ladderBands\<close> is not empty and \<open>ind\<close> is one of its indices, so \<open>ind1\<close> (which is
  \<open>max(0, ind - 1)\<close>, the truncating \<open>ind - 1\<close> on \<^typ>\<open>nat\<close>) and \<open>ind2\<close> are indices too.
\<close>

definition ladder_step ::
  "int list \<Rightarrow> int list \<Rightarrow> int \<Rightarrow> int \<Rightarrow> nat \<times> int \<Rightarrow> band list \<times> int \<times> int
     \<Rightarrow> band list \<times> int \<times> int" where
  "ladder_step ladderBands boldLadder maxN minN il st =
     (case (il, st) of ((ind, len), (bs, newMin, newMax)) \<Rightarrow>
     (let intensity = (if len \<in> set boldLadder then 1.0 else 0.5);
          ind1 = ind - 1;
          ind2 = min (length ladderBands - 1) (ind + 1)
      in if len < maxN \<and> len > minN \<or>
            ladderBands ! ind1 < maxN \<and> len > minN \<or>
            ladderBands ! ind2 > minN \<and> len < maxN
         then (bs @ [Band_init len (rjust 3 CHR '' '' (str_int len)) intensity None],
               if ladderBands ! ind1 < maxN \<and> len > minN \<and> ladderBands ! ind1 < newMin
               then ladderBands ! ind1 else newMin,
               if ladderBands ! ind2 > minN \<and> len < maxN \<and> ladderBands ! ind2 > newMax
               then ladderBands ! ind2 else newMax)
         else (bs, newMin, newMax)))"

text \<open>
  \<open>Gel.__makeLadder\<close>: the result is the list of ladder bands with the new values of
  \<open>self.minNBases\<close> and \<open>self.maxNBases\<close>.
\<close>

record ladder_result =
  ladder_bands :: "band list"
  new_minNBases :: int
  new_maxNBases :: int

definition makeLadder :: "lane list \<Rightarrow> int list \<Rightarrow> int list \<Rightarrow> error + ladder_result" where
  "makeLadder ls ladderBands boldLadder =
     (case max_of_lanes ls of
        Inl e \<Rightarrow> Inl e
      | Inr maxN \<Rightarrow>
     (case min_of_lanes ls of
        Inl e \<Rightarrow> Inl e
      | Inr minN \<Rightarrow>
     (case fold (ladder_step ladderBands boldLadder maxN minN)
             (enumerate 0 ladderBands) ([], 1000, 0) of
        (bs, newMin, newMax) \<Rightarrow>
          Inr \<lparr>ladder_bands = bs,
               new_minNBases = (if newMin \<noteq> 0 \<and> newMin < minN then newMin else minN),
               new_maxNBases = (if newMax \<noteq> 0 \<and> newMax > maxN then newMax else maxN)\<rparr>)))"

section \<open>Gel\<close>

text \<open>
  The temporary file of a Gel without file name only names the drawing and is left out.
  \<open>dwg\<close> is the one drawing of the Gel, made by the constructor.
\<close>

record gel =
  boldLadder :: "int list"
  lanes :: "lane list"
  dParam :: drawParams
  filename :: "string option"
  dwg :: drawing
  maxNBases :: int
  minNBases :: int
  ladder :: lane

definition Gel_init ::
  "lane list \<Rightarrow> drawParams option \<Rightarrow> int list \<Rightarrow> int list \<Rightarrow> string option \<Rightarrow> error + gel" where
  "Gel_init ls dParam0 ladderBands bold fname =
     (let dP = or_default dParam0;
          d = \<lparr>stylesheets = [(''hover.css'', ''label'')], elements = []\<rparr>
      in case makeLadder ls ladderBands bold of
           Inl e \<Rightarrow> Inl e
         | Inr r \<Rightarrow>
             Inr \<lparr>boldLadder = bold, lanes = ls, dParam = dP,
                  filename = (case fname of None \<Rightarrow> None
                              | Some f \<Rightarrow> if f = [] then None else Some f),
                  dwg = d, maxNBases = new_maxNBases r, minNBases = new_minNBases r,
                  ladder = Lane_init ''Ladder'' (ladder_bands r) (Some dP) True\<rparr>)"

text \<open>Line 191 of \<open>Gel.draw\<close>.\<close>

definition gelWidth :: "gel \<Rightarrow> int" where
  "gelWidth g =
     margin (dParam g) * 2 + (int (length (lanes g)) - 1) * gapWidth (dParam g)
       + int (length (lanes g)) * laneWidth (dParam g)"

text \<open>The loop of \<open>Gel.draw\<close> over the enumerated data lanes, from index \<open>index\<close> on.\<close>

fun draw_lanes ::
  "drawParams \<Rightarrow> int \<Rightarrow> int \<Rightarrow> nat \<Rightarrow> lane list \<Rightarrow> drawing \<Rightarrow> drawing \<times> error option" where
  "draw_lanes dP minN maxN index [] d = (d, None)"
| "draw_lanes dP minN maxN index (l # ls) d =
     (let xCoord = margin dP + (int index + 1) * (gapWidth dP + laneWidth dP)
      in case Lane_draw l d xCoord minN maxN (Some dP) of
           (d', Some e) \<Rightarrow> (d', Some e)
         | (d', None) \<Rightarrow> draw_lanes dP minN maxN (Suc index) ls d')"

text \<open>
  What a call of \<open>Gel.draw\<close> gives: an exception, the document written to the file of the
  Gel (the call returns \<open>None\<close>), or the document returned by \<open>tostring()\<close>.
\<close>

datatype outcome =
    Raised error
  | Saved string drawing
  | is_Returned: Returned (document: drawing)

definition Gel_draw :: "gel \<Rightarrow> gel \<times> outcome" where
  "Gel_draw g =
     (let dP = dParam g;
          d1 = add (dwg g)
                 (Rect (0, 0) (gelWidth g, gelHeight dP + 2 * margin dP) ''black'' None)
      in case Lane_draw (ladder g) d1 (margin dP) (minNBases g) (maxNBases g) (Some dP) of
           (d2, Some e) \<Rightarrow> (g\<lparr>dwg := d2\<rparr>, Raised e)
         | (d2, None) \<Rightarrow>
        (case draw_lanes dP (minNBases g) (maxNBases g) 0 (lanes g) d2 of
           (d3, Some e) \<Rightarrow> (g\<lparr>dwg := d3\<rparr>, Raised e)
         | (d3, None) \<Rightarrow>
             (case filename g of
                Some f \<Rightarrow> (g\<lparr>dwg := d3\<rparr>, Saved f d3)
              | None \<Rightarrow> (g\<lparr>dwg := d3\<rparr>, Returned d3))))"

section \<open>What a lane draws\<close>

text \<open>
  Names for the parts of the output of \<open>Lane.draw\<close>: the row \<open>yCoord\<close> of a band (line 113)
  and the elements that \<open>Band.draw\<close> adds for it (line 122), which are the elements it adds
  to a drawing without elements. Where \<open>__lengthtoIndex\<close> or the intensity raises, the row is
  set to 0 and the elements to none; the theorems use both only for lanes drawn without
  exception.
\<close>

definition empty_drawing :: drawing where
  "empty_drawing = \<lparr>stylesheets = [], elements = []\<rparr>"

definition yCoord_of :: "lane \<Rightarrow> drawParams \<Rightarrow> int \<Rightarrow> int \<Rightarrow> band \<Rightarrow> int" where
  "yCoord_of L dP lo hi b = (case lengthtoIndex L b lo hi of Inr i \<Rightarrow> i + margin dP | Inl e \<Rightarrow> 0)"

definition band_elements ::
  "lane \<Rightarrow> drawParams \<Rightarrow> int \<Rightarrow> int \<Rightarrow> int \<Rightarrow> real \<Rightarrow> band \<Rightarrow> element list" where
  "band_elements L dP xCoord lo hi maxNum b =
     (case intensity_of L maxNum b of
        Inl e \<Rightarrow> []
      | Inr t \<Rightarrow> elements (Band_draw b empty_drawing xCoord (yCoord_of L dP lo hi b) t (Some dP) (isLadder L)))"

text \<open>
  The collision rule in the words of the specification: the bands are processed in the given
  order; a band is kept on the first occurrence of its row and dropped when its row is already
  used.
\<close>

fun first_in_row :: "(band \<Rightarrow> int) \<Rightarrow> int set \<Rightarrow> band list \<Rightarrow> band list" where
  "first_in_row row used [] = []"
| "first_in_row row used (b # bs) =
     (if row b \<in> used then first_in_row row used bs
      else b # first_in_row row (insert (row b) used) bs)"

text \<open>
  A condition under which \<open>Lane.draw\<close> raises no exception: the lane has bands, the bounds and
  all lengths are positive, the bounds differ, the dilation factor is not zero, and in a data
  lane the maximum of the reads is not zero.
\<close>

definition drawable :: "lane \<Rightarrow> int \<Rightarrow> int \<Rightarrow> bool" where
  "drawable L lo hi \<longleftrightarrow>
     bands L \<noteq> [] \<and> 0 < lo \<and> 0 < hi \<and> lo \<noteq> hi \<and> lane_dilationFactor L \<noteq> 0 \<and>
     list_all (\<lambda>c. 0 < numBases c) (bands L) \<and>
     (isLadder L \<or> py_max (map reads (bands L)) \<noteq> Inr 0)"

section \<open>List objects and their copies\<close>

text \<open>
  A Python list is an object, and two names can denote one list object. For the claims about
  the copies made by the constructors, a store holds the list objects allocated so far; a
  reference is an index into the store, and every reference a program holds is an index of an
  allocated object. The items of a list are taken as values: changes to a Band or Lane object
  itself are not modelled. \<open>list(xs)\<close> allocates a new list object with the items of \<open>xs\<close>.
\<close>

type_synonym ref = nat

type_synonym 'a store = "'a list list"

definition py_list :: "'a store \<Rightarrow> ref \<Rightarrow> 'a store \<times> ref" where
  "py_list st src = (st @ [st ! src], length st)"

text \<open>A Lane object: \<open>self.bands\<close> is a reference to a list object.\<close>

record lane_obj =
  obj_name :: string
  obj_bands :: ref
  obj_isLadder :: bool
  obj_gelHeight :: int
  obj_dilationFactor :: real

definition Lane_init_obj ::
  "band store \<Rightarrow> string \<Rightarrow> ref \<Rightarrow> drawParams option \<Rightarrow> bool \<Rightarrow> band store \<times> lane_obj" where
  "Lane_init_obj st nm src dPo l =
     (case py_list st src of (st', r) \<Rightarrow>
        (let dP = or_default dPo
         in (st', \<lparr>obj_name = nm, obj_bands = r, obj_isLadder = l,
                   obj_gelHeight = gelHeight dP, obj_dilationFactor = dilationFactor dP\<rparr>)))"

text \<open>The Lane that the methods of a Lane object see in a store.\<close>

definition lane_value :: "band store \<Rightarrow> lane_obj \<Rightarrow> lane" where
  "lane_value st obj =
     \<lparr>name = obj_name obj, bands = st ! obj_bands obj, isLadder = obj_isLadder obj,
      lane_gelHeight = obj_gelHeight obj, lane_dilationFactor = obj_dilationFactor obj\<rparr>"

text \<open>
  A Gel object: \<open>self.lanes\<close> is a reference to a list of Lane objects. The constructor
  copies the caller's list of lanes, reads the lanes through the copy, and builds the ladder
  Lane from the list that \<open>__makeLadder\<close> returns, which \<open>Lane.__init__\<close> copies in turn.
\<close>

record heap =
  band_lists :: "band store"
  lane_lists :: "lane_obj store"

record gel_obj =
  obj_boldLadder :: "int list"
  obj_lanes :: ref
  obj_dParam :: drawParams
  obj_filename :: "string option"
  obj_dwg :: drawing
  obj_maxNBases :: int
  obj_minNBases :: int
  obj_ladder :: lane_obj

definition Gel_init_obj ::
  "heap \<Rightarrow> ref \<Rightarrow> drawParams option \<Rightarrow> int list \<Rightarrow> int list \<Rightarrow> string option
     \<Rightarrow> error + heap \<times> gel_obj" where
  "Gel_init_obj h src dPo ladderBands bold fname =
     (case py_list (lane_lists h) src of (ls', r) \<Rightarrow>
     (case makeLadder (map (lane_value (band_lists h)) (ls' ! r)) ladderBands bold of
        Inl e \<Rightarrow> Inl e
      | Inr res \<Rightarrow>
     (let dP = or_default dPo;
          bs1 = band_lists h @ [ladder_bands res]
      in case Lane_init_obj bs1 ''Ladder'' (length (band_lists h)) (Some dP) True of
           (bs2, lad) \<Rightarrow>
             Inr (\<lparr>band_lists = bs2, lane_lists = ls'\<rparr>,
                  \<lparr>obj_boldLadder = bold, obj_lanes = r, obj_dParam = dP,
                   obj_filename = (case fname of None \<Rightarrow> None
                                   | Some f \<Rightarrow> if f = [] then None else Some f),
                   obj_dwg = \<lparr>stylesheets = [(''hover.css'', ''label'')], elements = []\<rparr>,
                   obj_maxNBases = new_maxNBases res, obj_minNBases = new_minNBases res,
                   obj_ladder = lad\<rparr>))))"

text \<open>The Gel that the methods of a Gel object see in a heap.\<close>

definition gel_value :: "heap \<Rightarrow> gel_obj \<Rightarrow> gel" where
  "gel_value h g =
     \<lparr>boldLadder = obj_boldLadder g,
      lanes = map (lane_value (band_lists h)) (lane_lists h ! obj_lanes g),
      dParam = obj_dParam g, filename = obj_filename g, dwg = obj_dwg g,
      maxNBases = obj_maxNBases g, minNBases = obj_minNBases g,
      ladder = lane_value (band_lists h) (obj_ladder g)\<rparr>"

section \<open>Example inputs\<close>

text \<open>A data lane with default parameters: bands of 100 bp (10 reads) and 200 bp (5 reads).\<close>

definition example_lane :: lane where
  "example_lane =
     Lane_init ''1'' [Band_init 100 [] 10 None, Band_init 200 [] 5 None] None False"

text \<open>A data lane with default parameters and bands of the given lengths, one read each.\<close>

definition lane_of_lengths :: "int list \<Rightarrow> lane" where
  "lane_of_lengths ns = Lane_init ''1'' (map (\<lambda>n. Band_init n [] 1 None) ns) None False"

text \<open>The Gel that the constructor builds from one lane with bands of 110 and 140 bp.\<close>

definition gel_110_140 :: gel where
  "gel_110_140 =
     \<lparr>boldLadder = boldLadder_default, lanes = [lane_of_lengths [110, 140]],
      dParam = drawParams_default, filename = None,
      dwg = \<lparr>stylesheets = [(''hover.css'', ''label'')], elements = []\<rparr>,
      maxNBases = 150, minNBases = 100,
      ladder = Lane_init ''Ladder''
        [Band_init 100 ''100'' 1.0 None, Band_init 125 ''125'' 0.5 None,
         Band_init 150 ''150'' 0.5 None] (Some drawParams_default) True\<rparr>"

text \<open>A data lane with default parameters and bands of 1000 bp (10 reads) and 999 bp (5 reads).\<close>

definition band_1000 :: band where
  "band_1000 = Band_init 1000 ''A'' 10 None"

definition band_999 :: band where
  "band_999 = Band_init 999 ''B'' 5 None"

definition lane_1000_999 :: lane where
  "lane_1000_999 = Lane_init ''1'' [band_1000, band_999] None False"

text \<open>The Gel that the constructor builds from \<open>example_lane\<close>.\<close>

definition example_gel :: gel where
  "example_gel =
     \<lparr>boldLadder = boldLadder_default, lanes = [example_lane],
      dParam = drawParams_default, filename = None,
      dwg = \<lparr>stylesheets = [(''hover.css'', ''label'')], elements = []\<rparr>,
      maxNBases = 200, minNBases = 100,
      ladder = Lane_init ''Ladder''
        [Band_init 100 ''100'' 1.0 None, Band_init 125 ''125'' 0.5 None,
         Band_init 150 ''150'' 0.5 None, Band_init 200 ''200'' 1.0 None]
        (Some drawParams_default) True\<rparr>"

text \<open>
  A heap with one list of bands and one list of lanes, and the heap and the Gel object that
  the constructor makes from it.
\<close>

definition example_lane_obj :: lane_obj where
  "example_lane_obj =
     \<lparr>obj_name = ''1'', obj_bands = 0, obj_isLadder = False,
      obj_gelHeight = 400, obj_dilationFactor = 5\<rparr>"

definition example_heap :: heap where
  "example_heap = \<lparr>band_lists = [[band_1000, band_999]], lane_lists = [[example_lane_obj]]\<rparr>"

definition example_heap2 :: heap where
  "example_heap2 =
     \<lparr>band_lists = [[band_1000, band_999],
                     [Band_init 900 ''900'' 0.5 None, Band_init 1000 ''1000'' 1.0 None],
                     [Band_init 900 ''900'' 0.5 None, Band_init 1000 ''1000'' 1.0 None]],
      lane_lists = [[example_lane_obj], [example_lane_obj]]\<rparr>"

definition example_gel_obj :: gel_obj where
  "example_gel_obj =
     \<lparr>obj_boldLadder = boldLadder_default, obj_lanes = 1, obj_dParam = drawParams_default,
      obj_filename = None,
      obj_dwg = \<lparr>stylesheets = [(''hover.css'', ''label'')], elements = []\<rparr>,
      obj_maxNBases = 1000, obj_minNBases = 900,
      obj_ladder = \<lparr>obj_name = ''Ladder'', obj_bands = 2, obj_isLadder = True,
                     obj_gelHeight = 400, obj_dilationFactor = 5\<rparr>\<rparr>"

section \<open>Fields of a constructed lane\<close>

lemma Lane_init_sel [simp]:
  "name (Lane_init nm bs dPo l) = nm"
  "bands (Lane_init nm bs dPo l) = bs"
  "isLadder (Lane_init nm bs dPo l) = l"
  "lane_gelHeight (Lane_init nm bs dPo l) = gelHeight (or_default dPo)"
  "lane_dilationFactor (Lane_init nm bs dPo l) = dilationFactor (or_default dPo)"
  by (simp_all add: Lane_init_def Let_def)

lemma or_default_simps [simp]:
  "or_default None = drawParams_default"
  "or_default (Some p) = p"
  by (simp_all add: or_default_def)

section \<open>The nearest double of an integer\<close>

lemma bit_length_pos: "0 < n \<Longrightarrow> 0 < bit_length n"
  by (subst bit_length.simps) simp

lemma bit_length_bounds:
  "0 < n \<Longrightarrow> 2 ^ (bit_length n - 1) \<le> n \<and> n < 2 ^ bit_length n"
proof (induction n rule: bit_length.induct)
  case (1 n)
  show ?case
  proof (cases "n = 1")
    case True
    have "bit_length 1 = 1"
      by (subst bit_length.simps, subst bit_length.simps) simp
    then show ?thesis using True by simp
  next
    case False
    with "1.prems" have n2: "0 < n div 2" by simp
    from "1.IH" [OF _ n2] "1.prems"
    have ih: "2 ^ (bit_length (n div 2) - 1) \<le> n div 2" "n div 2 < 2 ^ bit_length (n div 2)"
      by simp_all
    have bl: "bit_length n = Suc (bit_length (n div 2))"
      using "1.prems" by (subst bit_length.simps) simp
    have p: "0 < bit_length (n div 2)" using n2 by (rule bit_length_pos)
    then obtain k where k: "bit_length (n div 2) = Suc k" by (cases "bit_length (n div 2)") auto
    have "2 * 2 ^ k \<le> n" using ih(1) k by simp
    moreover have "n < 2 * 2 ^ Suc k" using ih(2) k by simp
    ultimately show ?thesis by (simp add: bl k)
  qed
qed

lemma bit_length_mono:
  assumes "0 < a" and "a \<le> b"
  shows "bit_length a \<le> bit_length b"
proof (rule ccontr)
  assume "\<not> bit_length a \<le> bit_length b"
  then have lt: "bit_length b \<le> bit_length a - 1" by simp
  have "b < 2 ^ bit_length b" using bit_length_bounds [of b] assms by simp
  also have "(2::int) ^ bit_length b \<le> 2 ^ (bit_length a - 1)"
    using lt by (intro power_increasing) simp_all
  also have "\<dots> \<le> a" using bit_length_bounds [OF assms(1)] by simp
  finally show False using assms(2) by simp
qed

lemma nearest_double_small: "bit_length n \<le> 53 \<Longrightarrow> nearest_double n = n"
  by (simp add: nearest_double_def)

lemma nearest_double_large:
  "53 < bit_length n \<Longrightarrow>
   nearest_double n =
     (if round_up n (bit_length n - 53) then n div 2 ^ (bit_length n - 53) + 1
      else n div 2 ^ (bit_length n - 53)) * 2 ^ (bit_length n - 53)"
  by (simp add: nearest_double_def Let_def round_up_def)

lemma quotient_bounds:
  assumes "0 < n" and "53 < bit_length n"
  shows "2 ^ 52 \<le> n div 2 ^ (bit_length n - 53)" and "n div 2 ^ (bit_length n - 53) < 2 ^ 53"
proof -
  define s where "s = bit_length n - 53"
  have L: "bit_length n = s + 53" "bit_length n - 1 = s + 52" using assms(2) by (simp_all add: s_def)
  have e: "s + 53 - 1 = s + 52" by simp
  from bit_length_bounds [OF assms(1)] have b: "2 ^ (s + 52) \<le> n" "n < 2 ^ (s + 53)"
    unfolding L e by blast+
  have "(2::int) ^ 52 = 2 ^ (s + 52) div 2 ^ s" by (simp only: power_add) simp
  also have "\<dots> \<le> n div 2 ^ s" using b(1) by (intro zdiv_mono1) simp_all
  finally show "2 ^ 52 \<le> n div 2 ^ (bit_length n - 53)" by (simp add: s_def)
  have "n < 2 ^ 53 * 2 ^ s" using b(2) by (simp only: power_add mult.commute)
  moreover have "n div 2 ^ s * 2 ^ s \<le> n"
  proof -
    have "n = n div 2 ^ s * 2 ^ s + n mod 2 ^ s" by (rule div_mult_mod_eq [symmetric])
    moreover have "0 \<le> n mod 2 ^ s" by simp
    ultimately show ?thesis by linarith
  qed
  ultimately have "n div 2 ^ s * 2 ^ s < 2 ^ 53 * 2 ^ s" by linarith
  then have "n div 2 ^ s < 2 ^ 53" by (rule mult_right_less_imp_less) simp
  then show "n div 2 ^ (bit_length n - 53) < 2 ^ 53" by (simp add: s_def)
qed

lemma nearest_double_lower:
  assumes "0 < n"
  shows "2 ^ (bit_length n - 1) \<le> nearest_double n"
proof (cases "bit_length n \<le> 53")
  case True
  then show ?thesis using bit_length_bounds [OF assms] by (simp add: nearest_double_small)
next
  case False
  then have big: "53 < bit_length n" by simp
  define s where "s = bit_length n - 53"
  have L: "bit_length n - 1 = 52 + s" using big by (simp add: s_def)
  have "(2::int) ^ (bit_length n - 1) = 2 ^ 52 * 2 ^ s" by (simp only: L power_add)
  also have "\<dots> \<le> (n div 2 ^ s) * 2 ^ s"
    using quotient_bounds(1) [OF assms big] by (intro mult_right_mono) (simp_all add: s_def)
  also have "\<dots> \<le> nearest_double n"
    by (simp add: nearest_double_large [OF big] s_def)
  finally show ?thesis .
qed

lemma nearest_double_upper:
  assumes "0 < n"
  shows "nearest_double n \<le> 2 ^ bit_length n"
proof (cases "bit_length n \<le> 53")
  case True
  then show ?thesis using bit_length_bounds [OF assms] by (simp add: nearest_double_small)
next
  case False
  then have big: "53 < bit_length n" by simp
  define s where "s = bit_length n - 53"
  have L: "bit_length n = 53 + s" using big by (simp add: s_def)
  have "nearest_double n \<le> (n div 2 ^ s + 1) * 2 ^ s"
    by (simp add: nearest_double_large [OF big] s_def)
  also have "\<dots> \<le> 2 ^ 53 * 2 ^ s"
    using quotient_bounds(2) [OF assms big] by (intro mult_right_mono) (simp_all add: s_def)
  also have "\<dots> = 2 ^ bit_length n" by (simp only: L power_add)
  finally show ?thesis .
qed

lemma nearest_double_mono_same:
  assumes "0 < a" and "a \<le> b" and "bit_length a = bit_length b"
  shows "nearest_double a \<le> nearest_double b"
proof (cases "bit_length a \<le> 53")
  case True
  then show ?thesis using assms by (simp add: nearest_double_small)
next
  case False
  then have big: "53 < bit_length a" "53 < bit_length b" using assms(3) by simp_all
  define s where "s = bit_length a - 53"
  have sb: "bit_length b - 53 = s" using assms(3) by (simp add: s_def)
  have s1: "0 < s" using big by (simp add: s_def)
  have q: "a div 2 ^ s \<le> b div 2 ^ s" using assms(2) by (intro zdiv_mono1) simp_all
  have na: "nearest_double a = (if round_up a s then a div 2 ^ s + 1 else a div 2 ^ s) * 2 ^ s"
    using nearest_double_large [OF big(1)] by (simp add: s_def)
  have nb: "nearest_double b = (if round_up b s then b div 2 ^ s + 1 else b div 2 ^ s) * 2 ^ s"
    using nearest_double_large [OF big(2)] by (simp add: sb)
  show ?thesis
  proof (cases "a div 2 ^ s = b div 2 ^ s")
    case True
    have "a mod 2 ^ s \<le> b mod 2 ^ s"
    proof -
      have "a = a div 2 ^ s * 2 ^ s + a mod 2 ^ s" by (rule div_mult_mod_eq [symmetric])
      moreover have "b = b div 2 ^ s * 2 ^ s + b mod 2 ^ s" by (rule div_mult_mod_eq [symmetric])
      ultimately show ?thesis using assms(2) True by (metis add_le_cancel_left)
    qed
    then have "round_up a s \<Longrightarrow> round_up b s"
      using True by (auto simp: round_up_def)
    then show ?thesis unfolding na nb using True by auto
  next
    case False
    with q have "a div 2 ^ s + 1 \<le> b div 2 ^ s" by simp
    then have "(a div 2 ^ s + 1) * 2 ^ s \<le> b div 2 ^ s * 2 ^ s"
      by (intro mult_right_mono) simp_all
    moreover have "nearest_double a \<le> (a div 2 ^ s + 1) * 2 ^ s" by (simp add: na)
    moreover have "b div 2 ^ s * 2 ^ s \<le> nearest_double b" by (simp add: nb)
    ultimately show ?thesis by linarith
  qed
qed

lemma nearest_double_mono:
  assumes "0 < a" and "a \<le> b"
  shows "nearest_double a \<le> nearest_double b"
proof (cases "bit_length a = bit_length b")
  case True
  with assms show ?thesis by (rule nearest_double_mono_same)
next
  case False
  with bit_length_mono [OF assms] have lt: "bit_length a \<le> bit_length b - 1" by simp
  have b: "0 < b" using assms by simp
  have "nearest_double a \<le> 2 ^ bit_length a" using assms(1) by (rule nearest_double_upper)
  also have "(2::int) ^ bit_length a \<le> 2 ^ (bit_length b - 1)"
    using lt by (intro power_increasing) simp_all
  also have "\<dots> \<le> nearest_double b" using b by (rule nearest_double_lower)
  finally show ?thesis .
qed

lemma nearest_double_pos: "0 < n \<Longrightarrow> 0 < nearest_double n"
  using nearest_double_lower [of n] zero_less_power [of "2::int" "bit_length n - 1"]
  by linarith

section \<open>Migration distance and length, on doubles\<close>

lemma double_less_irrefl [simp]: "\<not> double_less a a"
  by (cases a) simp_all

lemma PyLong_AsDouble_pos:
  "0 < n \<Longrightarrow>
   PyLong_AsDouble n =
     (if 2 ^ 1024 \<le> nearest_double n then None
      else Some (Finite (real_of_int (nearest_double n))))"
  by (simp add: PyLong_AsDouble_def Let_def)

lemma nearest_double_2_53:
  "nearest_double (2 ^ 53) = 2 ^ 53"
  "nearest_double (2 ^ 53 + 1) = 2 ^ 53"
  by code_simp+

lemma PyLong_AsDouble_2_53:
  "PyLong_AsDouble (2 ^ 53) = Some (Finite (2 ^ 53))"
  "PyLong_AsDouble (2 ^ 53 + 1) = Some (Finite (2 ^ 53))"
proof -
  have p1: "(0::int) < 2 ^ 53 + 1" and p2: "(0::int) < 2 ^ 53" by simp_all
  have small: "\<not> (2::int) ^ 1024 \<le> 2 ^ 53" by simp
  show "PyLong_AsDouble (2 ^ 53) = Some (Finite (2 ^ 53))"
    unfolding PyLong_AsDouble_pos [OF p2] nearest_double_2_53 using small by simp
  show "PyLong_AsDouble (2 ^ 53 + 1) = Some (Finite (2 ^ 53))"
    unfolding PyLong_AsDouble_pos [OF p1] nearest_double_2_53 using small by simp
qed

lemma math_log10_2_53: "math_log10 P (2 ^ 53 + 1) = math_log10 P (2 ^ 53)"
proof -
  have "\<not> (2::int) ^ 53 + 1 \<le> 0" and "\<not> (2::int) ^ 53 \<le> 0" by simp_all
  then show ?thesis
    unfolding math_log10_def PyLong_AsDouble_2_53 by (simp only: if_False option.case)
qed

lemma distance_double_2_53: "distance_double P L (2 ^ 53 + 1) = distance_double P L (2 ^ 53)"
  unfolding distance_double_def math_log10_2_53 ..

lemma exact_platform_sel [simp]:
  "libm_log10 exact_platform = exact_log10"
  "float_sub exact_platform = exact_sub"
  "float_mul exact_platform = exact_mul"
  "log10_huge exact_platform = (\<lambda>n. Finite (log 10 (real_of_int n)))"
  by (simp_all add: exact_platform_def)

lemma exact_log10_mono:
  "0 < x \<Longrightarrow> x \<le> y \<Longrightarrow> double_le (exact_log10 (Finite x)) (exact_log10 (Finite y))"
  by (cases "x = y") (auto simp: double_le_def)

lemma exact_sub_anti:
  "double_le y y' \<Longrightarrow> double_le (exact_sub (Finite a) y') (exact_sub (Finite a) y)"
  by (cases y; cases y') (auto simp: double_le_def)

lemma exact_mul_mono:
  "0 < f \<Longrightarrow> double_le v v' \<Longrightarrow> double_le (exact_mul (Finite f) v) (exact_mul (Finite f) v')"
  by (cases v; cases v') (auto simp: double_le_def)

lemma distance_double_exact:
  assumes "0 < n" and "bit_length n \<le> 53"
  shows "distance_double exact_platform L n = map_sum id Finite (distance L n)"
proof -
  have nd: "nearest_double n = n" using assms(2) by (rule nearest_double_small)
  have "n < 2 ^ bit_length n" using bit_length_bounds [OF assms(1)] by simp
  also have "(2::int) ^ bit_length n \<le> 2 ^ 1024"
    using assms(2) by (intro power_increasing) simp_all
  finally have "\<not> 2 ^ 1024 \<le> n" by simp
  then have "PyLong_AsDouble n = Some (Finite (real_of_int n))"
    by (simp add: PyLong_AsDouble_pos [OF assms(1)] nd)
  then show ?thesis
    using assms(1) by (simp add: distance_double_def math_log10_def distance_def log10_def)
qed

text \<open>
  Claim C7, as amended. Let \<open>0 < n1 < n2\<close> be fragment lengths that convert to a double
  (\<open>n2\<close> rounds to less than \<open>2 ^ 1024\<close>) and let the dilation factor be positive. On a
  platform where \<open>log10\<close> is non-decreasing on the positive integer-valued doubles, the float
  difference \<open>4 - y\<close> is non-increasing in \<open>y\<close> and the float product with a positive
  double is non-decreasing in the other factor, both distances are computed (no exception)
  and the distance of \<open>n1\<close> is greater than or equal to the distance of \<open>n2\<close>.
\<close>

theorem distance_double_decreasing:
  assumes n: "0 < n1" "n1 < n2" "nearest_double n2 < 2 ^ 1024"
      and d: "0 < lane_dilationFactor L"
      and lg: "\<And>i j. 0 < i \<Longrightarrow> i \<le> j \<Longrightarrow>
                 double_le (libm_log10 P (Finite (real_of_int i)))
                           (libm_log10 P (Finite (real_of_int j)))"
      and sub: "\<And>y y'. double_le y y' \<Longrightarrow>
                 double_le (float_sub P (Finite 4) y') (float_sub P (Finite 4) y)"
      and mul: "\<And>f v v'. 0 < f \<Longrightarrow> double_le v v' \<Longrightarrow>
                 double_le (float_mul P (Finite f) v) (float_mul P (Finite f) v')"
  shows "\<exists>d1 d2. distance_double P L n1 = Inr d1 \<and> distance_double P L n2 = Inr d2
           \<and> double_le d2 d1"
proof -
  have n2: "0 < n2" using n by simp
  have le: "nearest_double n1 \<le> nearest_double n2"
    using n by (intro nearest_double_mono) simp_all
  have pos: "0 < nearest_double n1" using n(1) by (rule nearest_double_pos)
  define x1 where "x1 = real_of_int (nearest_double n1)"
  define x2 where "x2 = real_of_int (nearest_double n2)"
  have c1: "PyLong_AsDouble n1 = Some (Finite x1)"
    using le n(3) by (simp add: PyLong_AsDouble_pos [OF n(1)] x1_def)
  have c2: "PyLong_AsDouble n2 = Some (Finite x2)"
    using n(3) by (simp add: PyLong_AsDouble_pos [OF n2] x2_def)
  define y1 where "y1 = libm_log10 P (Finite x1)"
  define y2 where "y2 = libm_log10 P (Finite x2)"
  have y: "double_le y1 y2" unfolding y1_def y2_def x1_def x2_def using pos le by (rule lg)
  have m1: "math_log10 P n1 = Inr y1" using n(1) by (simp add: math_log10_def c1 y1_def)
  have m2: "math_log10 P n2 = Inr y2" using n2 by (simp add: math_log10_def c2 y2_def)
  have "double_le (float_mul P (Finite (lane_dilationFactor L)) (float_sub P (Finite 4) y2))
                  (float_mul P (Finite (lane_dilationFactor L)) (float_sub P (Finite 4) y1))"
    by (intro mul d sub y)
  then show ?thesis by (simp add: distance_double_def m1 m2)
qed

theorem distance_double_decreasing_witness:
  "\<exists>d1 d2. distance_double exact_platform (Lane_init ''1'' [] None False) 100 = Inr d1
         \<and> distance_double exact_platform (Lane_init ''1'' [] None False) 1000 = Inr d2
         \<and> double_le d2 d1"
proof (rule distance_double_decreasing)
  show "(0::int) < 100" and "(100::int) < 1000" by simp_all
  have "bit_length 1000 \<le> 53" by code_simp
  then have "nearest_double 1000 = 1000" by (rule nearest_double_small)
  then show "nearest_double 1000 < 2 ^ 1024" by simp
  show "0 < lane_dilationFactor (Lane_init ''1'' [] None False)"
    by (simp add: drawParams_default_def)
  show "double_le (libm_log10 exact_platform (Finite (real_of_int i)))
                  (libm_log10 exact_platform (Finite (real_of_int j)))"
    if "0 < i" "i \<le> j" for i j
    using that by (simp add: exact_log10_mono del: exact_log10.simps)
  show "double_le (float_sub exact_platform (Finite 4) y') (float_sub exact_platform (Finite 4) y)"
    if "double_le y y'" for y y'
    using that by (simp add: exact_sub_anti)
  show "double_le (float_mul exact_platform (Finite f) v) (float_mul exact_platform (Finite f) v')"
    if "0 < f" "double_le v v'" for f v v'
    using that by (simp add: exact_mul_mono)
qed

text \<open>
  The claim as stated fails on every platform and for every lane: \<open>2 ^ 53\<close> and
  \<open>2 ^ 53 + 1\<close> convert to the same double, so their distances are the same value and the
  first is not greater than the second.
\<close>

theorem distance_double_not_strict:
  "\<forall>P L. distance_double P L (2 ^ 53) = distance_double P L (2 ^ 53 + 1)
     \<and> \<not> (\<exists>d1 d2. distance_double P L (2 ^ 53) = Inr d1
              \<and> distance_double P L (2 ^ 53 + 1) = Inr d2 \<and> double_less d2 d1)"
  by (simp add: distance_double_2_53 del: power_numeral) 

section \<open>Maxima and minima\<close>

lemma py_max_Inr: "py_max xs = Inr m \<Longrightarrow> xs \<noteq> [] \<and> m = Max (set xs)"
  by (cases xs) (auto simp: py_max_def Max.set_eq_fold [symmetric])

lemma py_min_Inr: "py_min xs = Inr m \<Longrightarrow> xs \<noteq> [] \<and> m = Min (set xs)"
  by (cases xs) (auto simp: py_min_def Min.set_eq_fold [symmetric])

lemma py_max_Inl: "py_max xs = Inl e \<Longrightarrow> xs = [] \<and> e = ValueError_empty_sequence"
  by (cases xs) (auto simp: py_max_def)

lemma py_min_Inl: "py_min xs = Inl e \<Longrightarrow> xs = [] \<and> e = ValueError_empty_sequence"
  by (cases xs) (auto simp: py_min_def)

lemma each_lane_Inr:
  "each_lane f ls = Inr vs \<Longrightarrow>
   length vs = length ls \<and> (\<forall>i<length ls. f (ls ! i) = Inr (vs ! i))"
proof (induction ls arbitrary: vs)
  case Nil
  then show ?case by simp
next
  case (Cons l ls)
  then obtain v ws where v: "f l = Inr v" and ws: "each_lane f ls = Inr ws" and vs: "vs = v # ws"
    by (auto split: sum.splits)
  from Cons.IH [OF ws] show ?case using v vs by (auto simp: nth_Cons split: nat.splits)
qed

lemma each_lane_max_empty:
  "\<exists>l\<in>set ls. bands l = [] \<Longrightarrow>
   each_lane (\<lambda>l. py_max (map numBases (bands l))) ls = Inl ValueError_empty_sequence"
proof (induction ls)
  case Nil
  then show ?case by simp
next
  case (Cons l ls)
  show ?case
  proof (cases "py_max (map numBases (bands l))")
    case (Inl e)
    then show ?thesis using py_max_Inl [OF Inl] by simp
  next
    case (Inr v)
    then have "bands l \<noteq> []" using py_max_Inr [OF Inr] by simp
    then have "\<exists>l\<in>set ls. bands l = []" using Cons.prems by simp
    then show ?thesis using Cons.IH Inr by simp
  qed
qed

lemma max_of_lanes_ge:
  assumes "max_of_lanes ls = Inr mx" and "l \<in> set ls" and "b \<in> set (bands l)"
  shows "numBases b \<le> mx"
proof -
  from assms(1) obtain ms
    where ms: "each_lane (\<lambda>l. py_max (map numBases (bands l))) ls = Inr ms"
      and mx: "py_max ms = Inr mx"
    by (auto simp: max_of_lanes_def split: sum.splits)
  from assms(2) obtain i where i: "i < length ls" "ls ! i = l" by (auto simp: in_set_conv_nth)
  from each_lane_Inr [OF ms] i have len: "length ms = length ls"
    and mi: "py_max (map numBases (bands l)) = Inr (ms ! i)" by auto
  from py_max_Inr [OF mi] have "ms ! i = Max (set (map numBases (bands l)))" by simp
  moreover have "numBases b \<le> Max (set (map numBases (bands l)))"
    using assms(3) by (intro Max_ge) simp_all
  moreover have "ms ! i \<le> mx"
  proof -
    have "ms ! i \<in> set ms" using i len by simp
    then show ?thesis using py_max_Inr [OF mx] by simp
  qed
  ultimately show ?thesis by simp
qed

lemma min_of_lanes_le:
  assumes "min_of_lanes ls = Inr mn" and "l \<in> set ls" and "b \<in> set (bands l)"
  shows "mn \<le> numBases b"
proof -
  from assms(1) obtain ms
    where ms: "each_lane (\<lambda>l. py_min (map numBases (bands l))) ls = Inr ms"
      and mn: "py_min ms = Inr mn"
    by (auto simp: min_of_lanes_def split: sum.splits)
  from assms(2) obtain i where i: "i < length ls" "ls ! i = l" by (auto simp: in_set_conv_nth)
  from each_lane_Inr [OF ms] i have len: "length ms = length ls"
    and mi: "py_min (map numBases (bands l)) = Inr (ms ! i)" by auto
  from py_min_Inr [OF mi] have "ms ! i = Min (set (map numBases (bands l)))" by simp
  moreover have "Min (set (map numBases (bands l))) \<le> numBases b"
    using assms(3) by (intro Min_le) simp_all
  moreover have "mn \<le> ms ! i"
  proof -
    have "ms ! i \<in> set ms" using i len by simp
    then show ?thesis using py_min_Inr [OF mn] by simp
  qed
  ultimately show ?thesis by simp
qed

lemma makeLadder_Inr:
  assumes "makeLadder ls ladderBands bold = Inr r"
  shows "\<exists>mn mx. min_of_lanes ls = Inr mn \<and> max_of_lanes ls = Inr mx
           \<and> new_minNBases r \<le> mn \<and> mx \<le> new_maxNBases r"
  using assms
  by (auto simp: makeLadder_def split: sum.splits prod.splits)

section \<open>Normalised intensity\<close>

text \<open>
  Claim C3. In a data lane (not the ladder) whose bands all have reads \<open>\<ge> 0\<close> and whose
  maximum of reads \<open>maxNum\<close> is positive, the intensity computed for every band of the lane
  lies between 0.2 and 1.0, and it is exactly 1.0 for a band whose reads equal \<open>maxNum\<close>.
  Floats are read as exact reals.
\<close>

theorem intensity_normalized:
  assumes "\<not> isLadder L" and "py_max (map reads (bands L)) = Inr maxNum" and "0 < maxNum"
      and "\<forall>c\<in>set (bands L). 0 \<le> reads c" and "b \<in> set (bands L)"
  shows "\<exists>t. intensity_of L maxNum b = Inr t \<and> 0.2 \<le> t \<and> t \<le> 1.0
            \<and> (reads b = maxNum \<longrightarrow> t = 1.0)"
proof -
  from py_max_Inr [OF assms(2)] have m: "maxNum = Max (set (map reads (bands L)))" by simp
  have "reads b \<in> set (map reads (bands L))" using assms(5) by simp
  then have le: "reads b \<le> maxNum" unfolding m by (intro Max_ge) simp_all
  define val where "val = 1 - (maxNum - reads b) / maxNum"
  have v1: "val \<le> 1" using le assms(3) by (simp add: val_def)
  have v2: "reads b = maxNum \<Longrightarrow> val = 1" by (simp add: val_def)
  have "intensity_of L maxNum b = Inr (max val minBandIntensity)"
    using assms(1,3) by (simp add: intensity_of_def val_def)
  moreover have "0.2 \<le> max val minBandIntensity" by (simp add: minBandIntensity_def)
  moreover have "max val minBandIntensity \<le> 1" using v1 by (simp add: minBandIntensity_def)
  moreover have "reads b = maxNum \<Longrightarrow> max val minBandIntensity = 1"
    using v2 by (simp add: minBandIntensity_def)
  ultimately show ?thesis by simp
qed

theorem intensity_normalized_witness:
  "\<exists>t. intensity_of example_lane 10 (Band_init 200 [] 5 None) = Inr t
     \<and> 0.2 \<le> t \<and> t \<le> 1.0 \<and> (reads (Band_init 200 [] 5 None) = 10 \<longrightarrow> t = 1.0)"
  using intensity_normalized [of example_lane 10 "Band_init 200 [] 5 None"]
  by (simp add: example_lane_def Band_init_def py_max_def)

section \<open>Empty input\<close>

text \<open>
  Claim C8. Constructing a Gel from no lanes, or from lanes one of which has no bands, fails:
  the computation of the maximal fragment length (line 163, the first statement of
  \<open>__makeLadder\<close>) raises the \<open>ValueError\<close> of \<open>max()\<close> on an empty sequence, which is the
  error the specification calls EmptyInput, and the constructor passes it on.
\<close>

theorem Gel_init_empty_input:
  assumes "ls = [] \<or> (\<exists>l\<in>set ls. bands l = [])"
  shows "max_of_lanes ls = Inl ValueError_empty_sequence
       \<and> makeLadder ls ladderBands bold = Inl ValueError_empty_sequence
       \<and> Gel_init ls dParam0 ladderBands bold fname = Inl ValueError_empty_sequence"
proof -
  have m: "max_of_lanes ls = Inl ValueError_empty_sequence"
    using assms
  proof
    assume "ls = []"
    then show ?thesis by (simp add: max_of_lanes_def py_max_def)
  next
    assume "\<exists>l\<in>set ls. bands l = []"
    then show ?thesis by (simp add: max_of_lanes_def each_lane_max_empty)
  qed
  then have "makeLadder ls ladderBands bold = Inl ValueError_empty_sequence"
    by (simp add: makeLadder_def)
  with m show ?thesis by (simp add: Gel_init_def Let_def)
qed

theorem Gel_init_empty_input_witness:
  "Gel_init [] None ladder_default boldLadder_default None = Inl ValueError_empty_sequence
   \<and> Gel_init [example_lane, Lane_init ''2'' [] None False]
        None ladder_default boldLadder_default None = Inl ValueError_empty_sequence"
  using Gel_init_empty_input [of "[]" ladder_default boldLadder_default None None]
    Gel_init_empty_input [of "[example_lane, Lane_init ''2'' [] None False]"
       ladder_default boldLadder_default None None]
  by simp

section \<open>The ladder never narrows the range of the data\<close>

text \<open>
  Claim C10. When the construction of a Gel succeeds, the minimum \<open>mn\<close> and the maximum
  \<open>mx\<close> of the fragment lengths of the data bands exist, every data band has its length
  between them, and the stored \<open>minNBases\<close> is at most \<open>mn\<close> and the stored \<open>maxNBases\<close>
  at least \<open>mx\<close>.
\<close>

theorem makeLadder_never_narrows:
  assumes "Gel_init ls dParam0 ladderBands bold fname = Inr g"
  shows "\<exists>mn mx. min_of_lanes ls = Inr mn \<and> max_of_lanes ls = Inr mx
           \<and> minNBases g \<le> mn \<and> mx \<le> maxNBases g
           \<and> (\<forall>l\<in>set ls. \<forall>b\<in>set (bands l). mn \<le> numBases b \<and> numBases b \<le> mx)"
proof -
  from assms obtain r where r: "makeLadder ls ladderBands bold = Inr r"
    and g: "minNBases g = new_minNBases r" "maxNBases g = new_maxNBases r"
    by (auto simp: Gel_init_def Let_def split: sum.splits)
  from makeLadder_Inr [OF r] obtain mn mx where
    m: "min_of_lanes ls = Inr mn" "max_of_lanes ls = Inr mx"
       "new_minNBases r \<le> mn" "mx \<le> new_maxNBases r" by blast
  have "\<forall>l\<in>set ls. \<forall>b\<in>set (bands l). mn \<le> numBases b \<and> numBases b \<le> mx"
    using min_of_lanes_le [OF m(1)] max_of_lanes_ge [OF m(2)] by blast
  with m g show ?thesis by simp
qed

lemma gel_110_140_init:
  "Gel_init [lane_of_lengths [110, 140]] None ladder_default boldLadder_default None = Inr gel_110_140"
  by code_simp

theorem makeLadder_never_narrows_witness:
  "Gel_init [lane_of_lengths [110, 140]] None ladder_default boldLadder_default None = Inr gel_110_140
   \<and> (\<exists>mn mx. min_of_lanes [lane_of_lengths [110, 140]] = Inr mn
          \<and> max_of_lanes [lane_of_lengths [110, 140]] = Inr mx
          \<and> minNBases gel_110_140 \<le> mn \<and> mx \<le> maxNBases gel_110_140
          \<and> (\<forall>l\<in>set [lane_of_lengths [110, 140]]. \<forall>b\<in>set (bands l).
                mn \<le> numBases b \<and> numBases b \<le> mx))"
  using gel_110_140_init makeLadder_never_narrows [OF gel_110_140_init]
  by blast

section \<open>The ladder for the data range 110 to 140\<close>

lemma ladder_step_skip:
  assumes "\<not> (len < maxN \<and> len > minN \<or> LB ! (ind - 1) < maxN \<and> len > minN \<or>
              LB ! (min (length LB - 1) (ind + 1)) > minN \<and> len < maxN)"
  shows "ladder_step LB bold maxN minN (ind, len) st = st"
  using assms by (cases st) (simp add: ladder_step_def Let_def)

lemma fold_skip:
  "(\<And>p st. p \<in> set ps \<Longrightarrow> f p st = st) \<Longrightarrow> fold f ps st = st"
  by (induction ps arbitrary: st) simp_all

lemma ladder_loop_100_125_150:
  fixes xs ys :: "int list"
  assumes srt: "sorted (xs @ [100, 125, 150] @ ys)"
  defines "LB \<equiv> xs @ [100, 125, 150] @ ys"
  shows "fold (ladder_step LB bold 140 110) (enumerate 0 LB) ([], 1000, 0) =
           ([Band_init 100 (rjust 3 CHR '' '' (str_int 100)) (if 100 \<in> set bold then 1.0 else 0.5) None,
             Band_init 125 (rjust 3 CHR '' '' (str_int 125)) (if 125 \<in> set bold then 1.0 else 0.5) None,
             Band_init 150 (rjust 3 CHR '' '' (str_int 150)) (if 150 \<in> set bold then 1.0 else 0.5) None],
            100, 150)"
proof -
  define k where "k = length xs"
  have len: "length LB = k + 3 + length ys" by (simp add: LB_def k_def)
  have mono: "\<And>i j. i \<le> j \<Longrightarrow> j < length LB \<Longrightarrow> LB ! i \<le> LB ! j"
    using srt unfolding LB_def by (rule sorted_nth_mono)
  have at: "LB ! k = 100" "LB ! (k + 1) = 125" "LB ! (k + 2) = 150"
    by (simp_all add: LB_def k_def nth_append)
  have at': "LB ! Suc k = 125" "LB ! Suc (Suc k) = 150" using at by simp_all
  have en: "enumerate 0 LB =
      enumerate 0 xs @ [(k, 100), (k + 1, 125), (k + 2, 150)] @ enumerate (k + 3) ys"
    by (simp add: LB_def k_def enumerate_append_eq eval_nat_numeral)
  have low: "ladder_step LB bold 140 110 p st = st" if "p \<in> set (enumerate 0 xs)" for p st
  proof -
    obtain i l where p: "p = (i, l)" by (cases p)
    from that p have i: "i < k" and l: "l = xs ! i" by (auto simp: in_set_enumerate_eq k_def)
    have l': "l = LB ! i" using i l by (simp add: LB_def k_def nth_append)
    have "l \<le> 100" using mono [of i k] i len at l' by simp
    moreover have "LB ! (min (length LB - 1) (i + 1)) \<le> 100"
      using mono [of "min (length LB - 1) (i + 1)" k] i len at by simp
    ultimately show ?thesis unfolding p by (intro ladder_step_skip) simp
  qed
  have high: "ladder_step LB bold 140 110 p st = st" if "p \<in> set (enumerate (k + 3) ys)" for p st
  proof -
    obtain i l where p: "p = (i, l)" by (cases p)
    from that p have i: "k + 3 \<le> i" "i < length LB" and l: "l = ys ! (i - (k + 3))"
      by (auto simp: in_set_enumerate_eq len)
    have l': "l = LB ! i" using i l by (simp add: LB_def k_def nth_append eval_nat_numeral)
    have "150 \<le> l" using mono [of "k + 2" i] i at l' by simp
    moreover have "150 \<le> LB ! (i - 1)"
      using mono [of "k + 2" "i - 1"] i at by simp
    ultimately show ?thesis unfolding p by (intro ladder_step_skip) simp
  qed
  define F where "F = ladder_step LB bold 140 110"
  define B where "B = (\<lambda>n::int. Band_init n (rjust 3 CHR '' '' (str_int n))
                         (if n \<in> set bold then 1.0 else 0.5) None)"
  have fxs: "fold F (enumerate 0 xs) st = st" for st
    unfolding F_def by (rule fold_skip) (rule low)
  have fys: "fold F (enumerate (k + 3) ys) st = st" for st
    unfolding F_def by (rule fold_skip) (rule high)
  have before: "LB ! (k - 1) \<le> 100" using mono [of "k - 1" k] len at by simp
  have after: "150 \<le> LB ! (min (length LB - 1) (k + 3))"
    using mono [of "k + 2" "min (length LB - 1) (k + 3)"] len at by simp
  have m1: "min (length LB - Suc 0) (Suc k) = Suc k"
    "min (length LB - Suc 0) (Suc (Suc k)) = Suc (Suc k)"
    "min (length LB - Suc 0) (Suc (Suc (Suc k))) = min (length LB - 1) (k + 3)"
    using len by (simp_all add: eval_nat_numeral)
  have s1: "F (k, 100) ([], 1000, 0) = ([B 100], 1000, 125)"
    using before by (simp add: F_def B_def ladder_step_def Let_def at at' m1)
  have s2: "F (Suc k, 125) ([B 100], 1000, 125) = ([B 100, B 125], 100, 150)"
    by (simp add: F_def B_def ladder_step_def Let_def at at' m1)
  have s3: "F (Suc (Suc k), 150) ([B 100, B 125], 100, 150) = ([B 100, B 125, B 150], 100, 150)"
    using after by (simp add: F_def B_def ladder_step_def Let_def at at' m1)
  have "fold F (enumerate 0 LB) ([], 1000, 0) = ([B 100, B 125, B 150], 100, 150)"
    unfolding en by (simp add: fxs fys s1 s2 s3)
  then show ?thesis by (simp add: F_def B_def)
qed

text \<open>
  Claim C2. For an ascending ladder list that contains 100, 125, 150 in a row, and data lanes
  with minimal fragment length 110 and maximal fragment length 140, the constructor succeeds,
  the bands of the ladder lane are exactly the markers 100, 125 and 150, and the stored range
  is widened to 100 and 150.
\<close>

theorem ladder_100_125_150:
  assumes "sorted (xs @ [100, 125, 150] @ ys)"
      and "min_of_lanes ls = Inr 110" and "max_of_lanes ls = Inr 140"
  shows "\<exists>g. Gel_init ls dParam0 (xs @ [100, 125, 150] @ ys) bold fname = Inr g
            \<and> map numBases (bands (ladder g)) = [100, 125, 150]
            \<and> minNBases g = 100 \<and> maxNBases g = 150"
proof -
  define LB where "LB = xs @ [100, 125, 150] @ ys"
  have "\<exists>r. makeLadder ls LB bold = Inr r
          \<and> map numBases (ladder_bands r) = [100, 125, 150]
          \<and> new_minNBases r = 100 \<and> new_maxNBases r = 150"
    by (simp add: makeLadder_def assms(2,3) Band_init_def
          ladder_loop_100_125_150 [OF assms(1), of bold, folded LB_def])
  then show ?thesis
    unfolding LB_def [symmetric] by (auto simp: Gel_init_def Let_def)
qed

theorem ladder_100_125_150_witness:
  "\<exists>g. Gel_init [lane_of_lengths [110, 140]] None ladder_default boldLadder_default None = Inr g
      \<and> map numBases (bands (ladder g)) = [100, 125, 150]
      \<and> minNBases g = 100 \<and> maxNBases g = 150"
proof -
  have l: "ladder_default = [25, 50, 75] @ [100, 125, 150] @
             [200, 250, 300, 400, 500, 600, 700, 800, 900, 1000, 1250, 1500, 1750, 2000]"
    by (simp add: ladder_default_def)
  have s: "sorted ([25, 50, 75] @ [100, 125, 150] @
             [200, 250, 300, 400, 500, 600, 700, 800, 900, 1000, 1250, 1500, 1750, 2000 :: int])"
    by simp
  have mn: "min_of_lanes [lane_of_lengths [110, 140]] = Inr 110"
    by (simp add: min_of_lanes_def lane_of_lengths_def Band_init_def py_min_def)
  have mx: "max_of_lanes [lane_of_lengths [110, 140]] = Inr 140"
    by (simp add: max_of_lanes_def lane_of_lengths_def Band_init_def py_max_def)
  show ?thesis
    unfolding l by (rule ladder_100_125_150 [OF s mn mx])
qed

section \<open>Widening of the minimum above 1000 bp\<close>

text \<open>
  Claim C5, evaluated on the code. For data bands of 1300 and 1400 bp and the default ladder,
  the ladder bands are the markers 1250 and 1500. The included marker below the data is 1250,
  but \<open>newMin\<close> starts at 1000 and only decreases, so the minimum is widened to 1000 and not
  to 1250; the maximum is widened to 1500.
\<close>

theorem makeLadder_min_above_1000:
  "makeLadder [lane_of_lengths [1300, 1400]] ladder_default boldLadder_default =
     Inr \<lparr>ladder_bands = [Band_init 1250 ''1250'' 0.5 None, Band_init 1500 ''1500'' 1.0 None],
          new_minNBases = 1000, new_maxNBases = 1500\<rparr>"
  by code_simp

section \<open>Row collisions in a lane\<close>

lemma add_elements: "add d e = d\<lparr>elements := elements d @ [e]\<rparr>"
  by (simp add: add_def)

lemma Band_draw_appends:
  "Band_draw b d x y t dPo l =
     d\<lparr>elements := elements d @ elements (Band_draw b empty_drawing x y t dPo l)\<rparr>"
  by (simp add: Band_draw_def add_def empty_drawing_def Let_def split: option.splits)

lemma draw_bands_ok:
  assumes "\<forall>c\<in>set bs. (\<exists>i. lengthtoIndex L c lo hi = Inr i) \<and> (\<exists>t. intensity_of L M c = Inr t)"
  shows "draw_bands L dP x lo hi M bs S d =
           (d\<lparr>elements := elements d @
                concat (map (band_elements L dP x lo hi M)
                         (first_in_row (yCoord_of L dP lo hi) S bs))\<rparr>, None)"
  using assms
proof (induction bs arbitrary: S d)
  case Nil
  then show ?case by simp
next
  case (Cons c bs)
  from Cons.prems obtain i t where i: "lengthtoIndex L c lo hi = Inr i"
    and t: "intensity_of L M c = Inr t" by auto
  have rest: "\<forall>c\<in>set bs. (\<exists>i. lengthtoIndex L c lo hi = Inr i) \<and> (\<exists>t. intensity_of L M c = Inr t)"
    using Cons.prems by simp
  have y: "yCoord_of L dP lo hi c = i + margin dP" by (simp add: yCoord_of_def i)
  show ?case
  proof (cases "i + margin dP \<in> S")
    case True
    then show ?thesis using Cons.IH [OF rest] i t y by (simp add: Let_def)
  next
    case False
    have "band_elements L dP x lo hi M c =
            elements (Band_draw c empty_drawing x (i + margin dP) t (Some dP) (isLadder L))"
      by (simp add: band_elements_def t y)
    then show ?thesis
      using False Cons.IH [OF rest] i t y
      by (simp add: Band_draw_appends [of c d] Let_def)
  qed
qed

lemma draw_bands_None:
  "draw_bands L dP x lo hi M bs S d = (out, None) \<Longrightarrow>
   \<forall>c\<in>set bs. (\<exists>i. lengthtoIndex L c lo hi = Inr i) \<and> (\<exists>t. intensity_of L M c = Inr t)"
proof (induction bs arbitrary: S d)
  case Nil
  then show ?case by simp
next
  case (Cons c bs)
  then show ?case
    by (auto split: sum.splits if_splits simp: Let_def)
qed

lemma first_in_row_append:
  "first_in_row R S (xs @ ys) = first_in_row R S xs @ first_in_row R (S \<union> R ` set xs) ys"
  by (induction xs arbitrary: S) (auto simp: insert_absorb)

lemma distance_bands [simp]: "distance (L\<lparr>bands := bs\<rparr>) = distance L"
  by (intro ext) (simp add: distance_def split: sum.splits)

lemma lengthtoIndex_bands [simp]: "lengthtoIndex (L\<lparr>bands := bs\<rparr>) = lengthtoIndex L"
  by (intro ext) (simp add: lengthtoIndex_def Let_def split: sum.splits)

lemma intensity_of_bands [simp]: "intensity_of (L\<lparr>bands := bs\<rparr>) = intensity_of L"
  by (intro ext) (simp add: intensity_of_def)

lemma yCoord_of_bands [simp]: "yCoord_of (L\<lparr>bands := bs\<rparr>) = yCoord_of L"
  by (intro ext) (simp add: yCoord_of_def)

lemma band_elements_bands [simp]: "band_elements (L\<lparr>bands := bs\<rparr>) = band_elements L"
  by (intro ext) (simp add: band_elements_def split: sum.splits)

lemma py_max_set:
  assumes "py_max xs = Inr m" and "set ys = set xs"
  shows "py_max ys = Inr m"
proof -
  from py_max_Inr [OF assms(1)] have xs: "xs \<noteq> []" "m = Max (set xs)" by simp_all
  then have "ys \<noteq> []" using assms(2) by auto
  then obtain y ys' where ys: "ys = y # ys'" by (cases ys) auto
  have "py_max ys = Inr (Max (set ys))"
    unfolding ys by (simp add: py_max_def Max.set_eq_fold [symmetric])
  then show ?thesis using xs assms(2) by simp
qed

lemma Lane_draw_ok:
  assumes "py_max (map reads (bands L)) = Inr M"
      and "\<forall>c\<in>set (bands L). (\<exists>i. lengthtoIndex L c lo hi = Inr i) \<and> (\<exists>t. intensity_of L M c = Inr t)"
  shows "Lane_draw L d x lo hi dPo =
           (d\<lparr>elements := elements d @ Text (name L) (x, 10) (fontsize (or_default dPo)) #
                concat (map (band_elements L (or_default dPo) x lo hi M)
                         (first_in_row (yCoord_of L (or_default dPo) lo hi) {} (bands L)))\<rparr>, None)"
  by (simp add: Lane_draw_def Let_def assms(1) draw_bands_ok [OF assms(2)] add_def)

lemma Lane_draw_None:
  assumes "Lane_draw L d x lo hi dPo = (out, None)"
  shows "\<exists>M. py_max (map reads (bands L)) = Inr M \<and>
           (\<forall>c\<in>set (bands L). (\<exists>i. lengthtoIndex L c lo hi = Inr i) \<and> (\<exists>t. intensity_of L M c = Inr t))"
proof (cases "py_max (map reads (bands L))")
  case (Inl e)
  then show ?thesis using assms by (simp add: Lane_draw_def Let_def)
next
  case (Inr M)
  then have "draw_bands L (or_default dPo) x lo hi M (bands L) {}
               (add d (Text (name L) (x, 10) (fontsize (or_default dPo)))) = (out, None)"
    using assms by (simp add: Lane_draw_def Let_def)
  from draw_bands_None [OF this] Inr show ?thesis by simp
qed

text \<open>
  Claim C1. Let a lane hold the bands \<open>xs @ a # ys @ b # zs\<close>, where \<open>a\<close> and \<open>b\<close> map to
  the same row and no band of \<open>xs\<close> maps to that row, and let \<open>Lane.draw\<close> return without
  exception. Then the drawing gains the label of the lane, the elements of the bands of \<open>xs\<close>
  that are first in their row, the elements of \<open>a\<close>, and the elements of the bands of
  \<open>ys @ zs\<close> that are first in their row given the rows already used: nothing is emitted for
  \<open>b\<close>. With \<open>a\<close> and \<open>b\<close> swapped in the input, \<open>Lane.draw\<close> returns without exception
  too, and the output is the same with the elements of \<open>b\<close> in the place of those of \<open>a\<close>.
\<close>

theorem Lane_draw_row_collision:
  fixes L :: lane and dPo :: "drawParams option" and lo hi :: int
  defines "dP \<equiv> or_default dPo"
  defines "row \<equiv> yCoord_of L dP lo hi"
  assumes bs: "bands L = xs @ a # ys @ b # zs"
      and same: "row a = row b"
      and first: "row a \<notin> row ` set xs"
      and ok: "Lane_draw L d x lo hi dPo = (out, None)"
      and M: "py_max (map reads (bands L)) = Inr M"
  shows "out = d\<lparr>elements := elements d @ Text (name L) (x, 10) (fontsize dP) #
                  concat (map (band_elements L dP x lo hi M) (first_in_row row {} xs)) @
                  band_elements L dP x lo hi M a @
                  concat (map (band_elements L dP x lo hi M)
                    (first_in_row row (insert (row a) (row ` set xs)) (ys @ zs)))\<rparr>
       \<and> Lane_draw (L\<lparr>bands := xs @ b # ys @ a # zs\<rparr>) d x lo hi dPo =
           (d\<lparr>elements := elements d @ Text (name L) (x, 10) (fontsize dP) #
                  concat (map (band_elements L dP x lo hi M) (first_in_row row {} xs)) @
                  band_elements L dP x lo hi M b @
                  concat (map (band_elements L dP x lo hi M)
                    (first_in_row row (insert (row a) (row ` set xs)) (ys @ zs)))\<rparr>, None)"
proof -
  define S where "S = insert (row a) (row ` set xs)"
  from Lane_draw_None [OF ok] M
  have all: "\<forall>c\<in>set (bands L). (\<exists>i. lengthtoIndex L c lo hi = Inr i) \<and> (\<exists>t. intensity_of L M c = Inr t)"
    by simp
  have skip: "first_in_row row S (ys @ c # zs) = first_in_row row S (ys @ zs)" if "row c \<in> S" for c
    using that by (simp add: first_in_row_append)
  have k1: "first_in_row row {} (xs @ a # ys @ b # zs) =
              first_in_row row {} xs @ a # first_in_row row S (ys @ zs)"
    using first same skip [of b] by (simp add: first_in_row_append [of row "{}" xs] S_def)
  have first': "row b \<notin> row ` set xs" using first same by simp
  have S': "insert (row b) (row ` set xs) = S" using same by (simp add: S_def)
  have k2: "first_in_row row {} (xs @ b # ys @ a # zs) =
              first_in_row row {} xs @ b # first_in_row row S (ys @ zs)"
  proof -
    have "row a \<in> S" by (simp add: S_def)
    from skip [OF this] first' show ?thesis
      by (simp add: first_in_row_append [of row "{}" xs] S')
  qed
  have out: "out = fst (Lane_draw L d x lo hi dPo)" using ok by simp
  have one: "out = d\<lparr>elements := elements d @ Text (name L) (x, 10) (fontsize dP) #
                  concat (map (band_elements L dP x lo hi M) (first_in_row row {} xs)) @
                  band_elements L dP x lo hi M a @
                  concat (map (band_elements L dP x lo hi M) (first_in_row row S (ys @ zs)))\<rparr>"
    unfolding out Lane_draw_ok [OF M all]
    by (simp add: bs k1 [unfolded row_def dP_def] row_def dP_def)
  define L' where "L' = L\<lparr>bands := xs @ b # ys @ a # zs\<rparr>"
  have M': "py_max (map reads (bands L')) = Inr M"
    by (rule py_max_set [OF M]) (auto simp: bs L'_def)
  have all': "\<forall>c\<in>set (bands L'). (\<exists>i. lengthtoIndex L' c lo hi = Inr i) \<and> (\<exists>t. intensity_of L' M c = Inr t)"
    using all by (simp add: L'_def bs)
  have two: "Lane_draw L' d x lo hi dPo =
           (d\<lparr>elements := elements d @ Text (name L) (x, 10) (fontsize dP) #
                  concat (map (band_elements L dP x lo hi M) (first_in_row row {} xs)) @
                  band_elements L dP x lo hi M b @
                  concat (map (band_elements L dP x lo hi M) (first_in_row row S (ys @ zs)))\<rparr>, None)"
    unfolding Lane_draw_ok [OF M' all']
    by (simp add: L'_def k2 [unfolded row_def dP_def] row_def dP_def)
  from one two show ?thesis unfolding L'_def S_def ..
qed

section \<open>Two bands in one row: 1000 bp and 999 bp\<close>

lemma distance_Inr: "0 < n \<Longrightarrow> distance L n = Inr (lane_dilationFactor L * (4 - log 10 (real_of_int n)))"
  by (simp add: distance_def log10_def)

lemma lengthtoIndex_Inr:
  assumes "0 < lo" and "0 < hi" and "lo \<noteq> hi" and "0 < numBases b" and "lane_dilationFactor L \<noteq> 0"
  shows "\<exists>i. lengthtoIndex L b lo hi = Inr i"
proof -
  have "log 10 (real_of_int lo) \<noteq> log 10 (real_of_int hi)"
  proof (cases "lo < hi")
    case True
    then have "log 10 (real_of_int lo) < log 10 (real_of_int hi)"
      using assms(1) by (intro log_less) simp_all
    then show ?thesis by simp
  next
    case False
    then have "hi < lo" using assms(3) by simp
    then have "log 10 (real_of_int hi) < log 10 (real_of_int lo)"
      using assms(2) by (intro log_less) simp_all
    then show ?thesis by simp
  qed
  then have "lane_dilationFactor L * (4 - log 10 (real_of_int lo))
           - lane_dilationFactor L * (4 - log 10 (real_of_int hi)) \<noteq> 0"
    using assms(5) by (simp add: algebra_simps)
  then show ?thesis
    using assms(1,2,4) by (simp add: lengthtoIndex_def distance_Inr Let_def)
qed

lemma log_1000: "log 10 1000 = 3"
proof -
  have "log 10 ((10::real) ^ 3) = real 3" by (rule log_pow_cancel) simp_all
  moreover have "(10::real) ^ 3 = 1000" by simp
  ultimately show ?thesis by simp
qed

lemma log_999: "3 - 1 / 133 < log 10 999" "log 10 999 < 3"
proof -
  have p: "(10::real) ^ 398 < 999 ^ 133" by simp
  have "log 10 ((10::real) ^ 398) < log 10 (999 ^ 133)"
    by (rule log_less) (simp_all only: p, simp_all)
  moreover have "log 10 ((10::real) ^ 398) = real 398" by (rule log_pow_cancel) simp_all
  moreover have "log 10 ((999::real) ^ 133) = real 133 * log 10 999"
    by (rule log_nat_power) simp
  ultimately have "real 398 < real 133 * log 10 999" by (simp only:)
  then show "3 - 1 / 133 < log 10 999" by simp
  have "log 10 999 < log 10 1000" by (rule log_less) simp_all
  then show "log 10 999 < 3" by (simp add: log_1000)
qed

lemma row_1000: "lengthtoIndex (Lane_init nm bs None l) band_1000 1 1000 = Inr 0"
  by (simp add: lengthtoIndex_def distance_Inr drawParams_default_def band_1000_def Band_init_def log_1000 py_int_def)

lemma row_999: "lengthtoIndex (Lane_init nm bs None l) band_999 1 1000 = Inr 0"
proof -
  have "py_int (133 * (3 - log 10 999)) = 0"
    using log_999 by (simp add: py_int_def floor_eq_iff)
  moreover have "(5985 - 1995 * log 10 999) / 15 = 133 * (3 - log 10 999)" by simp
  ultimately have "py_int ((5985 - 1995 * log 10 999) / 15) = 0" by (simp only:)
  then show ?thesis
    by (simp add: lengthtoIndex_def distance_Inr drawParams_default_def band_999_def Band_init_def log_1000)
qed

lemma rows_1000_999:
  "yCoord_of lane_1000_999 dP 1 1000 band_1000 = margin dP"
  "yCoord_of lane_1000_999 dP 1 1000 band_999 = margin dP"
  by (simp_all add: yCoord_of_def lane_1000_999_def row_1000 row_999)

lemma Lane_draw_1000_999:
  "snd (Lane_draw lane_1000_999 empty_drawing 110 1 1000 None) = None"
proof -
  have "py_max (map reads (bands lane_1000_999)) = Inr 10"
    by (simp add: lane_1000_999_def band_1000_def band_999_def Band_init_def py_max_def)
  moreover have "\<forall>c\<in>set (bands lane_1000_999).
      (\<exists>i. lengthtoIndex lane_1000_999 c 1 1000 = Inr i) \<and> (\<exists>t. intensity_of lane_1000_999 10 c = Inr t)"
    by (simp add: lane_1000_999_def row_1000 row_999 intensity_of_def)
  ultimately show ?thesis by (simp add: Lane_draw_ok)
qed

theorem Lane_draw_row_collision_witness:
  "Lane_draw lane_1000_999 empty_drawing 110 1 1000 None =
     (\<lparr>stylesheets = [],
       elements = [Text ''1'' (110, 10) 12,
                   Rect (110, 60) (30, 1) ''white'' (Some 1),
                   Group ''label'' [Text ''A'' (0, 515) 12]]\<rparr>, None)
   \<and> Lane_draw (lane_1000_999\<lparr>bands := [band_999, band_1000]\<rparr>) empty_drawing 110 1 1000 None =
     (\<lparr>stylesheets = [],
       elements = [Text ''1'' (110, 10) 12,
                   Rect (110, 60) (30, 1) ''white'' (Some 0.5),
                   Group ''label'' [Text ''B'' (0, 515) 12]]\<rparr>, None)"
proof -
  have bs: "bands lane_1000_999 = [] @ band_1000 # [] @ band_999 # []"
    by (simp add: lane_1000_999_def)
  have same: "yCoord_of lane_1000_999 (or_default None) 1 1000 band_1000
            = yCoord_of lane_1000_999 (or_default None) 1 1000 band_999"
    by (simp add: rows_1000_999)
  have first: "yCoord_of lane_1000_999 (or_default None) 1 1000 band_1000
                 \<notin> yCoord_of lane_1000_999 (or_default None) 1 1000 ` set []"
    by simp
  have ok: "Lane_draw lane_1000_999 empty_drawing 110 1 1000 None =
              (fst (Lane_draw lane_1000_999 empty_drawing 110 1 1000 None), None)"
    using Lane_draw_1000_999 by (simp add: prod_eq_iff)
  have M: "py_max (map reads (bands lane_1000_999)) = Inr 10"
    by (simp add: lane_1000_999_def band_1000_def band_999_def Band_init_def py_max_def)
  have e1: "band_elements lane_1000_999 drawParams_default 110 1 1000 10 band_1000 =
          [Rect (110, 60) (30, 1) ''white'' (Some 1), Group ''label'' [Text ''A'' (0, 515) 12]]"
    by (simp add: band_elements_def rows_1000_999 intensity_of_def Band_draw_def add_def
          empty_drawing_def minBandIntensity_def)
       (simp add: lane_1000_999_def band_1000_def Band_init_def drawParams_default_def add_def)
  have e2: "band_elements lane_1000_999 drawParams_default 110 1 1000 10 band_999 =
          [Rect (110, 60) (30, 1) ''white'' (Some 0.5), Group ''label'' [Text ''B'' (0, 515) 12]]"
    by (simp add: band_elements_def rows_1000_999 intensity_of_def Band_draw_def add_def
          empty_drawing_def minBandIntensity_def)
       (simp add: lane_1000_999_def band_999_def Band_init_def drawParams_default_def add_def)
  from Lane_draw_row_collision [OF bs same first ok M]
  show ?thesis
    using ok by (simp add: e1 e2 empty_drawing_def) (simp add: lane_1000_999_def drawParams_default_def)
qed

section \<open>Drawing only appends\<close>

lemma draw_bands_appends:
  "draw_bands L dP x lo hi M bs S d =
     (d\<lparr>elements := elements d @ elements (fst (draw_bands L dP x lo hi M bs S empty_drawing))\<rparr>,
      snd (draw_bands L dP x lo hi M bs S empty_drawing))"
proof (induction bs arbitrary: S d)
  case Nil
  then show ?case by (simp add: empty_drawing_def)
next
  case (Cons c bs)
  show ?case
  proof (cases "lengthtoIndex L c lo hi")
    case (Inl e)
    then show ?thesis by (simp add: empty_drawing_def)
  next
    case i: (Inr i)
    show ?thesis
    proof (cases "intensity_of L M c")
      case (Inl e)
      then show ?thesis using i by (simp add: empty_drawing_def)
    next
      case t: (Inr t)
      show ?thesis
      proof (cases "i + margin dP \<in> S")
        case True
        then show ?thesis using i t Cons.IH [of S d] by (simp add: Let_def)
      next
        case False
        define d' where "d' = Band_draw c d x (i + margin dP) t (Some dP) (isLadder L)"
        define e' where "e' = Band_draw c empty_drawing x (i + margin dP) t (Some dP) (isLadder L)"
        have d': "d' = d\<lparr>elements := elements d @ elements e'\<rparr>"
          unfolding d'_def e'_def by (rule Band_draw_appends)
        have l: "draw_bands L dP x lo hi M (c # bs) S d =
                 draw_bands L dP x lo hi M bs (insert (i + margin dP) S) d'"
          using False i t by (simp add: Let_def d'_def)
        have r: "draw_bands L dP x lo hi M (c # bs) S empty_drawing =
                 draw_bands L dP x lo hi M bs (insert (i + margin dP) S) e'"
          using False i t by (simp add: Let_def e'_def)
        have a: "draw_bands L dP x lo hi M bs (insert (i + margin dP) S) d' =
            (d'\<lparr>elements := elements d' @ elements
                 (fst (draw_bands L dP x lo hi M bs (insert (i + margin dP) S) empty_drawing))\<rparr>,
             snd (draw_bands L dP x lo hi M bs (insert (i + margin dP) S) empty_drawing))"
          by (rule Cons.IH)
        have b: "draw_bands L dP x lo hi M bs (insert (i + margin dP) S) e' =
            (e'\<lparr>elements := elements e' @ elements
                 (fst (draw_bands L dP x lo hi M bs (insert (i + margin dP) S) empty_drawing))\<rparr>,
             snd (draw_bands L dP x lo hi M bs (insert (i + margin dP) S) empty_drawing))"
          by (rule Cons.IH)
        show ?thesis
          unfolding l r a b by (simp add: d')
      qed
    qed
  qed
qed

lemma Lane_draw_appends:
  "Lane_draw L d x lo hi dPo =
     (d\<lparr>elements := elements d @ elements (fst (Lane_draw L empty_drawing x lo hi dPo))\<rparr>,
      snd (Lane_draw L empty_drawing x lo hi dPo))"
proof (cases "py_max (map reads (bands L))")
  case (Inl e)
  then show ?thesis by (simp add: Lane_draw_def Let_def add_def empty_drawing_def)
next
  case (Inr M)
  show ?thesis
  proof -
    define E where "E = elements (fst (draw_bands L (or_default dPo) x lo hi M (bands L) {} empty_drawing))"
    define R where "R = snd (draw_bands L (or_default dPo) x lo hi M (bands L) {} empty_drawing)"
    have a: "draw_bands L (or_default dPo) x lo hi M (bands L) {} d' =
               (d'\<lparr>elements := elements d' @ E\<rparr>, R)" for d'
      unfolding E_def R_def by (rule draw_bands_appends)
    show ?thesis
      by (simp add: Lane_draw_def Let_def Inr a add_def empty_drawing_def)
  qed
qed

lemma draw_lanes_appends:
  "draw_lanes dP mn mx k ls d =
     (d\<lparr>elements := elements d @ elements (fst (draw_lanes dP mn mx k ls empty_drawing))\<rparr>,
      snd (draw_lanes dP mn mx k ls empty_drawing))"
proof (induction ls arbitrary: k d)
  case Nil
  then show ?case by (simp add: empty_drawing_def)
next
  case (Cons l ls)
  define x where "x = margin dP + (int k + 1) * (gapWidth dP + laneWidth dP)"
  define e where "e = fst (Lane_draw l empty_drawing x mn mx (Some dP))"
  define r where "r = snd (Lane_draw l empty_drawing x mn mx (Some dP))"
  have ld: "Lane_draw l d x mn mx (Some dP) = (d\<lparr>elements := elements d @ elements e\<rparr>, r)" for d
    unfolding e_def r_def by (rule Lane_draw_appends)
  have le: "Lane_draw l empty_drawing x mn mx (Some dP) = (e, r)" by (simp add: e_def r_def)
  show ?case
  proof (cases r)
    case None
    have l: "draw_lanes dP mn mx k (l # ls) d =
             draw_lanes dP mn mx (Suc k) ls (d\<lparr>elements := elements d @ elements e\<rparr>)"
      by (simp add: Let_def x_def [symmetric] ld None)
    have r: "draw_lanes dP mn mx k (l # ls) empty_drawing = draw_lanes dP mn mx (Suc k) ls e"
      by (simp add: Let_def x_def [symmetric] le None)
    have a: "draw_lanes dP mn mx (Suc k) ls (d\<lparr>elements := elements d @ elements e\<rparr>) =
        ((d\<lparr>elements := elements d @ elements e\<rparr>)\<lparr>elements :=
            elements (d\<lparr>elements := elements d @ elements e\<rparr>) @
            elements (fst (draw_lanes dP mn mx (Suc k) ls empty_drawing))\<rparr>,
         snd (draw_lanes dP mn mx (Suc k) ls empty_drawing))"
      by (rule Cons.IH)
    have b: "draw_lanes dP mn mx (Suc k) ls e =
        (e\<lparr>elements := elements e @
            elements (fst (draw_lanes dP mn mx (Suc k) ls empty_drawing))\<rparr>,
         snd (draw_lanes dP mn mx (Suc k) ls empty_drawing))"
      by (rule Cons.IH)
    show ?thesis
      unfolding l r a b by simp
  next
    case (Some err)
    then show ?thesis
      by (simp add: Let_def x_def [symmetric] ld) (simp add: empty_drawing_def)
  qed
qed

section \<open>Calling Gel.draw twice\<close>

lemma gelWidth_dwg [simp]: "gelWidth (g\<lparr>dwg := d\<rparr>) = gelWidth g"
  by (simp add: gelWidth_def)

lemma Gel_draw_dwg:
  fixes g :: gel
  defines "bg \<equiv> Rect (0, 0) (gelWidth g, gelHeight (dParam g) + 2 * margin (dParam g)) ''black'' None"
  defines "EL \<equiv> elements (fst (Lane_draw (ladder g) empty_drawing (margin (dParam g))
                      (minNBases g) (maxNBases g) (Some (dParam g))))"
  defines "ED \<equiv> elements (fst (draw_lanes (dParam g) (minNBases g) (maxNBases g) 0 (lanes g)
                      empty_drawing))"
  assumes lad: "snd (Lane_draw (ladder g) empty_drawing (margin (dParam g))
                      (minNBases g) (maxNBases g) (Some (dParam g))) = None"
      and dat: "snd (draw_lanes (dParam g) (minNBases g) (maxNBases g) 0 (lanes g)
                      empty_drawing) = None"
      and fn: "filename g = None"
  shows "Gel_draw (g\<lparr>dwg := d\<rparr>) =
           (g\<lparr>dwg := d\<lparr>elements := elements d @ bg # EL @ ED\<rparr>\<rparr>,
            Returned (d\<lparr>elements := elements d @ bg # EL @ ED\<rparr>))"
proof -
  have a: "Lane_draw (ladder g) d' (margin (dParam g)) (minNBases g) (maxNBases g) (Some (dParam g))
           = (d'\<lparr>elements := elements d' @ EL\<rparr>, None)" for d'
    unfolding EL_def lad [symmetric] by (rule Lane_draw_appends)
  have b: "draw_lanes (dParam g) (minNBases g) (maxNBases g) 0 (lanes g) d'
           = (d'\<lparr>elements := elements d' @ ED\<rparr>, None)" for d'
    unfolding ED_def dat [symmetric] by (rule draw_lanes_appends)
  show ?thesis
    by (simp add: Gel_draw_def Let_def a b fn add_def bg_def)
qed

lemma Gel_draw_Returned:
  assumes "Gel_draw g = (g1, Returned d1)"
  shows "snd (Lane_draw (ladder g) empty_drawing (margin (dParam g))
                      (minNBases g) (maxNBases g) (Some (dParam g))) = None
       \<and> snd (draw_lanes (dParam g) (minNBases g) (maxNBases g) 0 (lanes g) empty_drawing) = None
       \<and> filename g = None"
proof -
  define d0 where "d0 = add (dwg g)
     (Rect (0, 0) (gelWidth g, gelHeight (dParam g) + 2 * margin (dParam g)) ''black'' None)"
  obtain d2 r2 where l: "Lane_draw (ladder g) d0 (margin (dParam g)) (minNBases g) (maxNBases g)
      (Some (dParam g)) = (d2, r2)" by (cases "Lane_draw (ladder g) d0 (margin (dParam g)) (minNBases g) (maxNBases g)
      (Some (dParam g))")
  obtain d3 r3 where m: "draw_lanes (dParam g) (minNBases g) (maxNBases g) 0 (lanes g) d2 = (d3, r3)"
    by (cases "draw_lanes (dParam g) (minNBases g) (maxNBases g) 0 (lanes g) d2")
  from assms have r2: "r2 = None"
    by (cases r2) (simp_all add: Gel_draw_def Let_def d0_def [symmetric] l)
  from assms have r3: "r3 = None"
    by (cases r3) (simp_all add: Gel_draw_def Let_def d0_def [symmetric] l r2 m)
  from assms have fn: "filename g = None"
    by (cases "filename g") (simp_all add: Gel_draw_def Let_def d0_def [symmetric] l r2 m r3)
  have "snd (Lane_draw (ladder g) d0 (margin (dParam g)) (minNBases g) (maxNBases g)
      (Some (dParam g))) = None" using l r2 by simp
  then have 1: "snd (Lane_draw (ladder g) empty_drawing (margin (dParam g))
                      (minNBases g) (maxNBases g) (Some (dParam g))) = None"
    by (subst (asm) Lane_draw_appends) simp
  have "snd (draw_lanes (dParam g) (minNBases g) (maxNBases g) 0 (lanes g) d2) = None"
    using m r3 by simp
  then have 2: "snd (draw_lanes (dParam g) (minNBases g) (maxNBases g) 0 (lanes g) empty_drawing) = None"
    by (subst (asm) draw_lanes_appends) simp
  from 1 2 fn show ?thesis by simp
qed

lemma Gel_draw_again:
  assumes "Gel_draw g = (g1, Returned d1)"
  shows "\<exists>E g2 d2. E \<noteq> [] \<and> elements d1 = elements (dwg g) @ E
           \<and> Gel_draw g1 = (g2, Returned d2) \<and> elements d2 = elements d1 @ E \<and> d2 \<noteq> d1"
proof -
  define E where "E = Rect (0, 0) (gelWidth g, gelHeight (dParam g) + 2 * margin (dParam g)) ''black'' None
     # elements (fst (Lane_draw (ladder g) empty_drawing (margin (dParam g))
                      (minNBases g) (maxNBases g) (Some (dParam g))))
     @ elements (fst (draw_lanes (dParam g) (minNBases g) (maxNBases g) 0 (lanes g)
                      empty_drawing))"
  from Gel_draw_Returned [OF assms] have ok:
    "snd (Lane_draw (ladder g) empty_drawing (margin (dParam g))
                      (minNBases g) (maxNBases g) (Some (dParam g))) = None"
    "snd (draw_lanes (dParam g) (minNBases g) (maxNBases g) 0 (lanes g) empty_drawing) = None"
    "filename g = None" by simp_all
  have step: "Gel_draw (g\<lparr>dwg := d\<rparr>) =
           (g\<lparr>dwg := d\<lparr>elements := elements d @ E\<rparr>\<rparr>, Returned (d\<lparr>elements := elements d @ E\<rparr>))" for d
    unfolding E_def by (rule Gel_draw_dwg [OF ok])
  from step [of "dwg g"] assms have g1: "g1 = g\<lparr>dwg := d1\<rparr>"
    and d1: "d1 = (dwg g)\<lparr>elements := elements (dwg g) @ E\<rparr>" by simp_all
  have E: "E \<noteq> []" by (simp add: E_def)
  have "Gel_draw g1 = (g\<lparr>dwg := d1\<lparr>elements := elements d1 @ E\<rparr>\<rparr>,
                       Returned (d1\<lparr>elements := elements d1 @ E\<rparr>))"
    unfolding g1 by (rule step)
  moreover have "d1\<lparr>elements := elements d1 @ E\<rparr> \<noteq> d1"
  proof
    assume "d1\<lparr>elements := elements d1 @ E\<rparr> = d1"
    then have "elements (d1\<lparr>elements := elements d1 @ E\<rparr>) = elements d1" by simp
    then show False using E by simp
  qed
  moreover have "elements d1 = elements (dwg g) @ E" by (simp add: d1)
  ultimately show ?thesis using E by auto
qed

lemma example_gel_init:
  "Gel_init [example_lane] None ladder_default boldLadder_default None = Inr example_gel"
  by code_simp

lemma Lane_draw_drawable:
  assumes "drawable L lo hi"
  shows "snd (Lane_draw L d x lo hi dPo) = None"
proof -
  from assms obtain c cs where bs: "bands L = c # cs" by (cases "bands L") (auto simp: drawable_def)
  define M where "M = fold max (map reads cs) (reads c)"
  have M: "py_max (map reads (bands L)) = Inr M" by (simp add: bs py_max_def M_def)
  have "\<exists>i. lengthtoIndex L b lo hi = Inr i" if "b \<in> set (bands L)" for b
    using assms that by (intro lengthtoIndex_Inr) (auto simp: drawable_def list_all_iff)
  moreover have "\<exists>t. intensity_of L M b = Inr t" for b
    using assms M by (auto simp: drawable_def intensity_of_def)
  ultimately show ?thesis by (simp add: Lane_draw_ok [OF M])
qed

lemma draw_lanes_drawable:
  assumes "list_all (\<lambda>l. drawable l mn mx) ls"
  shows "snd (draw_lanes dP mn mx k ls d) = None"
  using assms
proof (induction ls arbitrary: k d)
  case Nil
  then show ?case by simp
next
  case (Cons l ls)
  define x where "x = margin dP + (int k + 1) * (gapWidth dP + laneWidth dP)"
  obtain d' r where l: "Lane_draw l d x mn mx (Some dP) = (d', r)"
    by (cases "Lane_draw l d x mn mx (Some dP)")
  have "r = None" using Lane_draw_drawable [of l mn mx d x "Some dP"] Cons.prems l by simp
  then show ?case using Cons l by (simp add: Let_def x_def [symmetric])
qed

lemma Gel_draw_drawable:
  assumes "drawable (ladder g) (minNBases g) (maxNBases g)"
      and "list_all (\<lambda>l. drawable l (minNBases g) (maxNBases g)) (lanes g)"
      and "filename g = None"
  shows "Gel_draw g = (fst (Gel_draw g), Returned (dwg (fst (Gel_draw g))))"
proof -
  have "Gel_draw (g\<lparr>dwg := dwg g\<rparr>) = (g\<lparr>dwg := dwg g\<lparr>elements := elements (dwg g) @ 
     Rect (0, 0) (gelWidth g, gelHeight (dParam g) + 2 * margin (dParam g)) ''black'' None
     # elements (fst (Lane_draw (ladder g) empty_drawing (margin (dParam g))
                      (minNBases g) (maxNBases g) (Some (dParam g))))
     @ elements (fst (draw_lanes (dParam g) (minNBases g) (maxNBases g) 0 (lanes g)
                      empty_drawing))\<rparr>\<rparr>,
            Returned (dwg g\<lparr>elements := elements (dwg g) @ 
     Rect (0, 0) (gelWidth g, gelHeight (dParam g) + 2 * margin (dParam g)) ''black'' None
     # elements (fst (Lane_draw (ladder g) empty_drawing (margin (dParam g))
                      (minNBases g) (maxNBases g) (Some (dParam g))))
     @ elements (fst (draw_lanes (dParam g) (minNBases g) (maxNBases g) 0 (lanes g)
                      empty_drawing))\<rparr>))"
    by (rule Gel_draw_dwg [OF Lane_draw_drawable [OF assms(1)] draw_lanes_drawable [OF assms(2)] assms(3)])
  then show ?thesis by simp
qed

lemma example_gel_drawable:
  "drawable (ladder example_gel) (minNBases example_gel) (maxNBases example_gel)"
  "list_all (\<lambda>l. drawable l (minNBases example_gel) (maxNBases example_gel)) (lanes example_gel)"
  "filename example_gel = None"
  by (simp_all add: example_gel_def drawable_def example_lane_def Band_init_def py_max_def
        drawParams_default_def)

lemma example_gel_draw:
  "Gel_draw example_gel = (fst (Gel_draw example_gel), Returned (dwg (fst (Gel_draw example_gel))))"
  by (rule Gel_draw_drawable [OF example_gel_drawable])

text \<open>
  Claim C6, as amended. When a call of \<open>Gel.draw\<close> returns a document, the call has appended
  a sequence \<open>E\<close> of elements, which is not empty, to the drawing of the Gel; a second call
  on the same Gel returns a document too, namely the first document with \<open>E\<close> appended once
  more, so the two documents differ.
\<close>

theorem Gel_draw_twice:
  assumes "Gel_draw g = (g1, Returned d1)"
  shows "\<exists>E g2 d2. E \<noteq> [] \<and> elements d1 = elements (dwg g) @ E
           \<and> Gel_draw g1 = (g2, Returned d2) \<and> elements d2 = elements d1 @ E \<and> d2 \<noteq> d1"
  using assms by (rule Gel_draw_again)

theorem Gel_draw_twice_witness:
  "\<exists>E g2 d2. E \<noteq> [] \<and> elements (dwg (fst (Gel_draw example_gel))) = elements (dwg example_gel) @ E
           \<and> Gel_draw (fst (Gel_draw example_gel)) = (g2, Returned d2)
           \<and> elements d2 = elements (dwg (fst (Gel_draw example_gel))) @ E
           \<and> d2 \<noteq> dwg (fst (Gel_draw example_gel))"
  by (rule Gel_draw_twice [OF example_gel_draw])

text \<open>
  The claim as stated fails: for the Gel of \<open>example_lane\<close> the first call returns a
  document and the second call returns a different one.
\<close>

theorem Gel_draw_not_idempotent:
  "Gel_init [example_lane] None ladder_default boldLadder_default None = Inr example_gel
   \<and> is_Returned (snd (Gel_draw example_gel))
   \<and> snd (Gel_draw (fst (Gel_draw example_gel))) \<noteq> snd (Gel_draw example_gel)"
proof -
  from Gel_draw_again [OF example_gel_draw] obtain g2 d2 where
    2: "Gel_draw (fst (Gel_draw example_gel)) = (g2, Returned d2)"
    and ne: "d2 \<noteq> dwg (fst (Gel_draw example_gel))" by blast
  have 1: "snd (Gel_draw example_gel) = Returned (dwg (fst (Gel_draw example_gel)))"
    by (subst example_gel_draw) simp
  show ?thesis using example_gel_init 1 2 ne by simp
qed

section \<open>Width of the canvas\<close>

lemma Lane_draw_label:
  "\<exists>es. elements (fst (Lane_draw L d x lo hi dPo)) =
          elements d @ Text (name L) (x, 10) (fontsize (or_default dPo)) # es"
proof (cases "py_max (map reads (bands L))")
  case (Inl e)
  then show ?thesis by (simp add: Lane_draw_def Let_def add_def)
next
  case (Inr M)
  define d1 where "d1 = add d (Text (name L) (x, 10) (fontsize (or_default dPo)))"
  have "elements (fst (draw_bands L (or_default dPo) x lo hi M (bands L) {} d1)) =
          elements d1 @ elements (fst (draw_bands L (or_default dPo) x lo hi M (bands L) {} empty_drawing))"
    by (subst draw_bands_appends) simp
  then show ?thesis by (simp add: Lane_draw_def Let_def Inr d1_def [symmetric]) (simp add: d1_def add_def)
qed

text \<open>
  Claim C4, evaluated on the code. For the Gel of one data lane with default parameters,
  \<open>Gel.draw\<close> computes the width 150, that is \<open>2*margin + laneWidth\<close>: \<open>len(self.lanes)\<close>
  counts the data lanes only. The formula of the claim, with the ladder counted
  (\<open>laneCount = 2\<close>), gives 200. The loop of \<open>Gel.draw\<close> puts the data lane at \<open>x = 110\<close>
  (its label is the first element the loop adds), so the lane, 30 wide, ends at 140 and the
  canvas of width 150 leaves 10 to its right, where the margin is 60.
\<close>

theorem gelWidth_one_lane:
  "Gel_init [example_lane] None ladder_default boldLadder_default None = Inr example_gel
   \<and> gelWidth example_gel = 150
   \<and> 2 * margin (dParam example_gel) + (2 - 1) * gapWidth (dParam example_gel)
        + 2 * laneWidth (dParam example_gel) = 200
   \<and> hd (elements (fst (draw_lanes (dParam example_gel) (minNBases example_gel)
            (maxNBases example_gel) 0 (lanes example_gel) empty_drawing)))
        = Text ''1'' (110, 10) 12"
proof -
  obtain es where "elements (fst (Lane_draw example_lane empty_drawing 110 100 200 (Some drawParams_default))) =
          elements empty_drawing @ Text (name example_lane) (110, 10) (fontsize (or_default (Some drawParams_default))) # es"
    using Lane_draw_label by blast
  then have l: "hd (elements (fst (Lane_draw example_lane empty_drawing 110 100 200 (Some drawParams_default))))
      = Text ''1'' (110, 10) 12"
    by (simp add: empty_drawing_def example_lane_def drawParams_default_def)
  have "hd (elements (fst (draw_lanes (dParam example_gel) (minNBases example_gel)
            (maxNBases example_gel) 0 (lanes example_gel) empty_drawing)))
        = Text ''1'' (110, 10) 12"
    using l
    by (auto simp: example_gel_def Let_def drawParams_default_def split: prod.splits option.splits)
  moreover have "gelWidth example_gel = 150"
    by (simp add: gelWidth_def example_gel_def drawParams_default_def)
  moreover have "2 * margin (dParam example_gel) + (2 - 1) * gapWidth (dParam example_gel)
        + 2 * laneWidth (dParam example_gel) = 200"
    by (simp add: example_gel_def drawParams_default_def)
  ultimately show ?thesis using example_gel_init by simp
qed

section \<open>The constructors copy the caller's sequences\<close>

lemma Lane_init_obj_value:
  assumes "src < length st" and "Lane_init_obj st nm src dPo l = (st', obj)"
  shows "lane_value st' obj = Lane_init nm (st ! src) dPo l"
  using assms
  by (auto simp: Lane_init_obj_def py_list_def lane_value_def Lane_init_def Let_def)

lemma Lane_init_obj_copy:
  assumes "src < length st" and "Lane_init_obj st nm src dPo l = (st', obj)"
  shows "bands (lane_value st' obj) = st ! src"
    and "lane_value (st'[src := xs]) obj = lane_value st' obj"
  using assms
  by (auto simp: Lane_init_obj_def py_list_def lane_value_def Let_def nth_list_update)

lemma Gel_init_obj_copy:
  assumes "src < length (lane_lists h)"
      and "Gel_init_obj h src dPo LB bold fname = Inr (h', g)"
  shows "lanes (gel_value h' g) = map (lane_value (band_lists h')) (lane_lists h ! src)"
    and "gel_value (h'\<lparr>lane_lists := (lane_lists h')[src := ls]\<rparr>) g = gel_value h' g"
  using assms
  by (auto simp: Gel_init_obj_def py_list_def gel_value_def Let_def nth_list_update
      Lane_init_obj_def split: sum.splits prod.splits)

lemma lane_value_append:
  "obj_bands obj < length st \<Longrightarrow> lane_value (st @ ys) obj = lane_value st obj"
  by (simp add: lane_value_def nth_append)

lemma Gel_init_obj_value:
  assumes src: "src < length (lane_lists h)"
      and wf: "\<forall>obj\<in>set (lane_lists h ! src). obj_bands obj < length (band_lists h)"
      and ini: "Gel_init_obj h src dPo LB bold fname = Inr (h', g)"
  shows "Gel_init (map (lane_value (band_lists h)) (lane_lists h ! src)) dPo LB bold fname
           = Inr (gel_value h' g)"
proof -
  define ls where "ls = map (lane_value (band_lists h)) (lane_lists h ! src)"
  from ini src obtain res where res: "makeLadder ls LB bold = Inr res"
    by (auto simp: Gel_init_obj_def py_list_def ls_def nth_append Let_def
        split: sum.splits prod.splits)
  define bs2 where "bs2 = band_lists h @ [ladder_bands res] @ [ladder_bands res]"
  have h': "band_lists h' = bs2" "lane_lists h' = lane_lists h @ [lane_lists h ! src]"
    and g: "obj_lanes g = length (lane_lists h)" "obj_bands (obj_ladder g) = Suc (length (band_lists h))"
    using ini src res
    by (auto simp: Gel_init_obj_def py_list_def ls_def [symmetric] nth_append Let_def bs2_def
        Lane_init_obj_def split: prod.splits)
  have "map (lane_value bs2) (lane_lists h ! src) = ls"
    unfolding ls_def bs2_def using wf by (simp add: lane_value_append)
  moreover have "lane_value bs2 (obj_ladder g) = Lane_init ''Ladder'' (ladder_bands res) (Some (or_default dPo)) True"
    using ini src res
    by (auto simp: Gel_init_obj_def py_list_def ls_def [symmetric] nth_append Let_def bs2_def
        Lane_init_obj_def lane_value_def Lane_init_def split: prod.splits)
  ultimately show ?thesis
    using ini src res
    by (auto simp: Gel_init_def Gel_init_obj_def py_list_def ls_def [symmetric] nth_append Let_def
        gel_value_def h' g Lane_init_obj_def split: prod.splits)
qed

text \<open>
  Claim C9. A Lane constructed from the list object \<open>src\<close> holds the items that \<open>src\<close> had
  at construction, and whatever sequence \<open>xs\<close> the caller's list object holds afterwards,
  the Lane seen through the store is the same and \<open>Lane.draw\<close> gives the same result. The
  same holds for a Gel constructed from the list object \<open>lsrc\<close> of lanes and \<open>Gel.draw\<close>.
\<close>

theorem constructors_copy_sequences:
  "(src < length st \<and> Lane_init_obj st nm src dPo l = (st', obj) \<longrightarrow>
      bands (lane_value st' obj) = st ! src \<and>
      (\<forall>xs. lane_value (st'[src := xs]) obj = lane_value st' obj \<and>
            Lane_draw (lane_value (st'[src := xs]) obj) d x lo hi dP =
            Lane_draw (lane_value st' obj) d x lo hi dP))
   \<and> (lsrc < length (lane_lists h) \<and> Gel_init_obj h lsrc dPo' LB bold fname = Inr (h', g) \<longrightarrow>
      lanes (gel_value h' g) = map (lane_value (band_lists h')) (lane_lists h ! lsrc) \<and>
      (\<forall>ls. gel_value (h'\<lparr>lane_lists := (lane_lists h')[lsrc := ls]\<rparr>) g = gel_value h' g \<and>
            Gel_draw (gel_value (h'\<lparr>lane_lists := (lane_lists h')[lsrc := ls]\<rparr>) g) =
            Gel_draw (gel_value h' g)))"
  using Lane_init_obj_copy [of src st nm dPo l st' obj]
    Gel_init_obj_copy [of lsrc h dPo' LB bold fname h' g]
  by simp

lemma example_Lane_init_obj:
  "Lane_init_obj [[band_1000, band_999]] ''1'' 0 None False =
     ([[band_1000, band_999], [band_1000, band_999]], example_lane_obj\<lparr>obj_bands := 1\<rparr>)"
  by (simp add: Lane_init_obj_def py_list_def example_lane_obj_def drawParams_default_def)

lemma example_Gel_init_obj:
  "Gel_init_obj example_heap 0 None ladder_default boldLadder_default None = Inr (example_heap2, example_gel_obj)"
  by code_simp

theorem constructors_copy_sequences_witness:
  "(\<forall>xs. lane_value ([[band_1000, band_999], [band_1000, band_999]][0 := xs])
            (example_lane_obj\<lparr>obj_bands := 1\<rparr>)
          = Lane_init ''1'' [band_1000, band_999] None False)
   \<and> (\<forall>ls. lanes (gel_value (example_heap2\<lparr>lane_lists := (lane_lists example_heap2)[0 := ls]\<rparr>)
                 example_gel_obj)
          = [Lane_init ''1'' [band_1000, band_999] None False])"
  using constructors_copy_sequences [of 0 "[[band_1000, band_999]]" "''1''" None False
      "[[band_1000, band_999], [band_1000, band_999]]" "example_lane_obj\<lparr>obj_bands := 1\<rparr>"
      _ _ _ _ _ 0
      example_heap
      None ladder_default boldLadder_default None example_heap2 example_gel_obj]
    example_Lane_init_obj example_Gel_init_obj
  by (simp add: example_heap_def)
     (simp add: lane_value_def gel_value_def example_heap2_def example_lane_obj_def
        Lane_init_def drawParams_default_def example_gel_obj_def)

end
